theory Spec2Isabelle
  imports Main "HOL-Library.AList"
begin

section \<open>Untyped values and their print representation\<close>

text \<open>
  The builders of package errm take their fields and format arguments as \<^verbatim>\<open>...any\<close>.
  The values the tests and the README pass are strings, integers and slices of such
  values; \<open>any\<close> holds these, the booleans and the nil interface. A field key is honoured
  when its dynamic type is \<^verbatim>\<open>string\<close>, that is, when it is an \<open>AString\<close>.
\<close>

datatype any = AString string | AInt int | ABool bool | ASlice "any list" | ANil

text \<open>Decimal digits of a natural number, most significant first.\<close>

fun digits :: "nat \<Rightarrow> string" where
  "digits n = (if n < 10 then [''0123456789'' ! n]
               else digits (n div 10) @ [''0123456789'' ! (n mod 10)])"

declare digits.simps [simp del]

fun joinWith :: "string \<Rightarrow> string list \<Rightarrow> string" where
  "joinWith sep [] = []"
| "joinWith sep [x] = x"
| "joinWith sep (x # y # ys) = x @ sep @ joinWith sep (y # ys)"

text \<open>
  \<^verbatim>\<open>fmt.Sprint(v)\<close> for one operand: a string is printed as it is, an integer in
  decimal, a slice as its elements between brackets, separated by one space.
\<close>

fun Sprint :: "any \<Rightarrow> string" where
  "Sprint (AString s) = s"
| "Sprint (AInt i) = (if i < 0 then CHR ''-'' # digits (nat (- i)) else digits (nat i))"
| "Sprint (ABool b) = (if b then ''true'' else ''false'')"
| "Sprint (ASlice xs) = ''['' @ joinWith '' '' (map Sprint xs) @ '']''"
| "Sprint ANil = ''<nil>''"

text \<open>
  \<^verbatim>\<open>fmt.Sprintf\<close> is not modelled: the functions that call it take it as the
  parameter \<open>sprintf\<close>. What the claims say about \<^verbatim>\<open>Errorf\<close> and \<^verbatim>\<open>Wrapf\<close> is which
  arguments reach it, not what it prints.
\<close>

type_synonym Sprintf = "string \<Rightarrow> any list \<Rightarrow> string"

section \<open>The field formatter\<close>

text \<open>
  \<^verbatim>\<open>buildErrorMessage(baseErr, fields)\<close>. The loop
  \<^verbatim>\<open>for i := 0; i < len(fields); i += 2\<close> is the recursion \<open>buildLoop\<close> on the
  fields from index \<open>i\<close> on, with the builder \<open>out\<close> as accumulator: it stops when
  no field is left (the loop condition) or when one is left (the \<^verbatim>\<open>break\<close>), skips a
  pair whose key is not a string (the \<^verbatim>\<open>continue\<close>), and writes a space, the key,
  \<^verbatim>\<open>=\<close> and \<^verbatim>\<open>fmt.Sprint\<close> of the value otherwise. \<^verbatim>\<open>out.Grow\<close> only sizes the buffer.
\<close>

fun buildLoop :: "any list \<Rightarrow> string \<Rightarrow> string" where
  "buildLoop (k # v # rest) out =
     (case k of
        AString key \<Rightarrow> buildLoop rest (out @ '' '' @ key @ ''='' @ Sprint v)
      | _ \<Rightarrow> buildLoop rest out)"
| "buildLoop [x] out = out"
| "buildLoop [] out = out"

definition buildErrorMessage :: "string \<Rightarrow> any list \<Rightarrow> string" where
  "buildErrorMessage baseErr fields =
     (if length fields < 2 then baseErr else buildLoop fields baseErr)"

text \<open>
  \<^verbatim>\<open>separateArgsAndFields(msg, args)\<close>: \<^verbatim>\<open>strings.Count(msg, "%")\<close> counts the
  \<^verbatim>\<open>%\<close> characters of \<open>msg\<close>. The result is the pair (format arguments, fields); a nil
  slice and an empty one are both \<open>[]\<close>.
\<close>

definition separateArgsAndFields :: "string \<Rightarrow> any list \<Rightarrow> any list \<times> any list" where
  "separateArgsAndFields msg args =
     (let numberOfFormats = count_list msg (CHR ''%'') in
      if numberOfFormats = 0 then ([], args)
      else if numberOfFormats \<le> length args
        then (take numberOfFormats args, drop numberOfFormats args)
        else (args, []))"

text \<open>
  The words of the specification for the formatter: the fields are read as pairs, a
  dangling last key is dropped, and each pair gives one token, empty when the key is
  not a string.
\<close>

fun pairs :: "any list \<Rightarrow> (any \<times> any) list" where
  "pairs (k # v # rest) = (k, v) # pairs rest"
| "pairs [x] = []"
| "pairs [] = []"

definition isString :: "any \<Rightarrow> bool" where
  "isString k = (case k of AString _ \<Rightarrow> True | _ \<Rightarrow> False)"

definition token :: "any \<times> any \<Rightarrow> string" where
  "token p = (case fst p of AString key \<Rightarrow> '' '' @ key @ ''='' @ Sprint (snd p) | _ \<Rightarrow> [])"

section \<open>Error values\<close>

text \<open>
  An \<^verbatim>\<open>error\<close> of Go is an interface value; \<open>error option\<close> models it, \<open>None\<close> being
  nil. The dynamic types that occur are:
  \<^item> \<open>ErrorString a msg\<close>: the result of \<^verbatim>\<open>errors.New(msg)\<close>, a pointer with address \<open>a\<close>;
  \<^item> \<open>FmtWrap a prefix err\<close>: the result of \<^verbatim>\<open>fmt.Errorf(prefix + "%w", err)\<close>, a pointer
    with address \<open>a\<close> whose \<^verbatim>\<open>Unwrap\<close> is \<open>err\<close>;
  \<^item> \<open>Custom a msg ext\<close>: a pointer with address \<open>a\<close> to a value of an error type of the
    caller, whose \<^verbatim>\<open>Error()\<close> returns \<open>msg\<close> and whose \<^verbatim>\<open>Unwrap()\<close> returns \<open>ext\<close>
    (\<open>None\<close> when it wraps nothing). \<^verbatim>\<open>error\<close> is an open interface: nothing relates the
    message of such an error to the error it wraps. The type has no method \<^verbatim>\<open>Is\<close> or
    \<^verbatim>\<open>As\<close> of its own;
  \<^item> \<open>Eris r\<close>: a value of package eris, used as it is;
  \<^item> \<open>ErrorImpl r\<close>: \<^verbatim>\<open>errorImpl{err: r}\<close>, the error type of errm. \<^verbatim>\<open>newError\<close> is only
    applied to results of eris, so the field is an eris value;
  \<^item> \<open>ListError a l\<close> and \<open>SetError a s\<close>: the composites \<^verbatim>\<open>listError{*List}\<close> and
    \<^verbatim>\<open>setError{*Set}\<close>: the address \<open>a\<close> of the container they point to, and the members
    the container has when the composite is used. The composite is read where \<^verbatim>\<open>Err()\<close>
    returns it: a container that is changed between \<^verbatim>\<open>Err()\<close> and the use of the
    composite, or that holds its own composite, is outside the model.

  Package eris is the trace provider; it is not part of the repository. Its values are a
  \<^verbatim>\<open>*rootError\<close> (a message and, when the root wraps an error that is not of eris, that
  error in \<^verbatim>\<open>ext\<close>) or a \<^verbatim>\<open>*wrapError\<close> (a message and the eris value it wraps).
  Stack traces are left out: no claim reads them.
\<close>

datatype error =
    ErrorString nat string
  | FmtWrap nat string error
  | Custom nat string "error option"
  | Eris eris
  | ErrorImpl eris
  | ListError nat "error list"
  | SetError nat "(string \<times> error) list"
and eris =
    RootError string "error option"
  | WrapError string eris

text \<open>
  A call that does not return normally: a nil pointer dereference, or a second
  \<^verbatim>\<open>Lock\<close> of a mutex that is held. Results are \<open>failure + 'a\<close>.
\<close>

datatype failure = NilDereference | Deadlock

text \<open>
  \<^verbatim>\<open>JoinErrors\<close> on the messages of its arguments: \<open>None\<close> is a nil error, \<open>Some r\<close> the
  outcome of \<^verbatim>\<open>err.Error()\<close>. \<open>i\<close> is the index of the loop and \<open>b\<close> the byte slice.
  The result is \<open>b\<close> after the loop.
\<close>

fun joinMessages :: "nat \<Rightarrow> string \<Rightarrow> (failure + string) option list \<Rightarrow> failure + string" where
  "joinMessages i b [] = Inr b"
| "joinMessages i b (None # rs) = joinMessages (Suc i) b rs"
| "joinMessages i b (Some (Inl f) # rs) = Inl f"
| "joinMessages i b (Some (Inr msg) # rs) =
     (if msg = [] then joinMessages (Suc i) b rs
      else joinMessages (Suc i) ((if 0 < i then b @ ''; '' else b) @ msg) rs)"

text \<open>
  \<^verbatim>\<open>fmt\<close> recovers from a panic of the \<^verbatim>\<open>Error\<close> method it calls and prints it.
\<close>

definition Sprint_error :: "failure + string \<Rightarrow> string" where
  "Sprint_error r =
     (case r of
        Inr s \<Rightarrow> s
      | Inl _ \<Rightarrow> ''%!v(PANIC=Error method: runtime error: invalid memory address or nil pointer dereference)'')"

text \<open>
  The method \<^verbatim>\<open>Error()\<close>, by dynamic type.
  \<^item> \<^verbatim>\<open>errorImpl.Error\<close> returns \<^verbatim>\<open>e.err.Error()\<close>.
  \<^item> An eris value prints, in its default format without trace, the messages of its wrap
    errors from the outermost on, each followed by \<^verbatim>\<open>": "\<close>, then the message of the root,
    then the external error of the root, printed by \<^verbatim>\<open>fmt\<close> and separated by \<^verbatim>\<open>": "\<close>
    when the root has a message.
  \<^item> \<^verbatim>\<open>listError.Error\<close> and \<^verbatim>\<open>setError.Error\<close> return the empty string for an empty
    container and \<^verbatim>\<open>JoinErrors(errs...).Error()\<close> otherwise: the call of \<^verbatim>\<open>Error\<close> on the
    nil that \<^verbatim>\<open>JoinErrors\<close> returns for an empty text is a nil dereference; on the
    error \<^verbatim>\<open>New(string(b))\<close> it returns for a text \<open>b\<close> it gives \<open>b\<close>. (The functions
    \<open>JoinErrors\<close>, \<open>listError_Error\<close> and \<open>setError_Error\<close> below are written as the source
    has them and are proved equal to these equations.)
\<close>

fun Error :: "error \<Rightarrow> failure + string" and eris_ToString :: "eris \<Rightarrow> string" where
  "Error (ErrorString a msg) = Inr msg"
| "Error (FmtWrap a prefix err) = Inr (prefix @ Sprint_error (Error err))"
| "Error (Custom a msg ext) = Inr msg"
| "Error (Eris r) = Inr (eris_ToString r)"
| "Error (ErrorImpl r) = Inr (eris_ToString r)"
| "Error (ListError a l) =
     (if l = [] then Inr []
      else (case joinMessages 0 [] (map (\<lambda>e. Some (Error e)) l) of
              Inl f \<Rightarrow> Inl f
            | Inr b \<Rightarrow> if 0 < length b then Inr b else Inl NilDereference))"
| "Error (SetError a s) =
     (if s = [] then Inr []
      else (case joinMessages 0 [] (map (\<lambda>p. Some (Error (snd p))) s) of
              Inl f \<Rightarrow> Inl f
            | Inr b \<Rightarrow> if 0 < length b then Inr b else Inl NilDereference))"
| "eris_ToString (RootError msg ext) =
     (case ext of
        None \<Rightarrow> msg
      | Some x \<Rightarrow>
          (let externalStr = Sprint_error (Error x) in
           msg @ (if msg \<noteq> [] then '': '' else []) @ externalStr))"
| "eris_ToString (WrapError msg r) = msg @ '': '' @ eris_ToString r"

section \<open>The trace provider\<close>

text \<open>
  The functions of eris that errm calls. \<^verbatim>\<open>eris.New(msg)\<close> and
  \<^verbatim>\<open>eris.Errorf(format, args...)\<close> return a root error; \<^verbatim>\<open>eris.Wrap\<close> and
  \<^verbatim>\<open>eris.Wrapf\<close> wrap an eris value in a wrap error and make a root error with
  \<^verbatim>\<open>ext\<close> of any other error (errm never passes them nil).
\<close>

definition eris_New :: "string \<Rightarrow> eris" where
  "eris_New msg = RootError msg None"

definition eris_Errorf :: "Sprintf \<Rightarrow> string \<Rightarrow> any list \<Rightarrow> eris" where
  "eris_Errorf sprintf format args = RootError (sprintf format args) None"

fun eris_wrap :: "error \<Rightarrow> string \<Rightarrow> eris" where
  "eris_wrap (Eris r) msg = WrapError msg r"
| "eris_wrap e msg = RootError msg (Some e)"

definition eris_Wrap :: "error \<Rightarrow> string \<Rightarrow> eris" where
  "eris_Wrap err msg = eris_wrap err msg"

definition eris_Wrapf :: "Sprintf \<Rightarrow> error \<Rightarrow> string \<Rightarrow> any list \<Rightarrow> eris" where
  "eris_Wrapf sprintf err format args = eris_wrap err (sprintf format args)"

text \<open>
  The chain of an error: the error itself, followed by the errors that repeated calls of
  \<^verbatim>\<open>Unwrap\<close> give. A root error unwraps to its \<^verbatim>\<open>ext\<close>, a wrap error to the error it
  wraps, the result of \<^verbatim>\<open>fmt.Errorf\<close> to the operand of \<^verbatim>\<open>%w\<close>, an error of the
  caller to what its \<^verbatim>\<open>Unwrap\<close> returns; \<^verbatim>\<open>errorImpl\<close>, \<^verbatim>\<open>listError\<close> and \<^verbatim>\<open>setError\<close>
  have no method \<^verbatim>\<open>Unwrap\<close>.
\<close>

fun Unwrap_chain :: "error \<Rightarrow> error list" and eris_chain :: "eris \<Rightarrow> error list" where
  "Unwrap_chain (ErrorString a msg) = [ErrorString a msg]"
| "Unwrap_chain (FmtWrap a prefix err) = FmtWrap a prefix err # Unwrap_chain err"
| "Unwrap_chain (Custom a msg ext) =
     Custom a msg ext # (case ext of None \<Rightarrow> [] | Some x \<Rightarrow> Unwrap_chain x)"
| "Unwrap_chain (Eris r) = eris_chain r"
| "Unwrap_chain (ErrorImpl r) = [ErrorImpl r]"
| "Unwrap_chain (ListError a l) = [ListError a l]"
| "Unwrap_chain (SetError a s) = [SetError a s]"
| "eris_chain (RootError msg ext) =
     Eris (RootError msg ext) # (case ext of None \<Rightarrow> [] | Some x \<Rightarrow> Unwrap_chain x)"
| "eris_chain (WrapError msg r) = Eris (WrapError msg r) # eris_chain r"

text \<open>
  \<^verbatim>\<open>eris.As(err, &target)\<close> returns the first error of the chain of \<open>err\<close> that has the
  type of the target, for the three targets errm uses; the chain of nil is empty. Of a
  composite the functions return the members, which is what \<^verbatim>\<open>Has\<close> reads.
\<close>

fun firstErrorImpl :: "error list \<Rightarrow> eris option" where
  "firstErrorImpl [] = None"
| "firstErrorImpl (ErrorImpl r # es) = Some r"
| "firstErrorImpl (e # es) = firstErrorImpl es"

fun firstSetError :: "error list \<Rightarrow> (string \<times> error) list option" where
  "firstSetError [] = None"
| "firstSetError (SetError a s # es) = Some s"
| "firstSetError (e # es) = firstSetError es"

fun firstListError :: "error list \<Rightarrow> error list option" where
  "firstListError [] = None"
| "firstListError (ListError a l # es) = Some l"
| "firstListError (e # es) = firstListError es"

definition As_errorImpl :: "error option \<Rightarrow> eris option" where
  "As_errorImpl err = (case err of None \<Rightarrow> None | Some e \<Rightarrow> firstErrorImpl (Unwrap_chain e))"

definition As_setError :: "error option \<Rightarrow> (string \<times> error) list option" where
  "As_setError err = (case err of None \<Rightarrow> None | Some e \<Rightarrow> firstSetError (Unwrap_chain e))"

definition As_listError :: "error option \<Rightarrow> error list option" where
  "As_listError err = (case err of None \<Rightarrow> None | Some e \<Rightarrow> firstListError (Unwrap_chain e))"

text \<open>
  The methods \<^verbatim>\<open>Is(target)\<close> of eris: a root error matches a root error with the same
  message and any other target whose \<^verbatim>\<open>Error()\<close> is its message; a wrap error
  likewise. The other types have no such method.
\<close>

fun Is_method :: "error \<Rightarrow> error \<Rightarrow> failure + bool" where
  "Is_method (Eris (RootError msg ext)) target =
     (case target of
        Eris (RootError msg' ext') \<Rightarrow> Inr (msg = msg')
      | _ \<Rightarrow> (case Error target of Inl f \<Rightarrow> Inl f | Inr s \<Rightarrow> Inr (msg = s)))"
| "Is_method (Eris (WrapError msg r)) target =
     (case target of
        Eris (WrapError msg' r') \<Rightarrow> Inr (msg = msg')
      | _ \<Rightarrow> (case Error target of Inl f \<Rightarrow> Inl f | Inr s \<Rightarrow> Inr (msg = s)))"
| "Is_method e target = Inr False"

text \<open>
  The comparison \<^verbatim>\<open>err == target\<close> of two interface values that are not nil: they are
  equal when they have the same dynamic type and the same value. Two pointers are equal
  when they hold the same address, and two composites when they point to the same
  container. The pointers of eris carry no address in the model: two eris values are
  compared by their structure, which does not change what \<^verbatim>\<open>eris.Is\<close> returns, since the
  method \<^verbatim>\<open>Is\<close> of an eris value accepts every target with its structure. Two
  \<^verbatim>\<open>errorImpl\<close> are compared by their fields; the target that errm passes is unwrapped
  and never an \<^verbatim>\<open>errorImpl\<close>.
\<close>

fun go_eq :: "error \<Rightarrow> error \<Rightarrow> bool" where
  "go_eq (ErrorString a msg) (ErrorString a' msg') = (a = a')"
| "go_eq (FmtWrap a prefix err) (FmtWrap a' prefix' err') = (a = a')"
| "go_eq (Custom a msg ext) (Custom a' msg' ext') = (a = a')"
| "go_eq (Eris r) (Eris r') = (r = r')"
| "go_eq (ErrorImpl r) (ErrorImpl r') = (r = r')"
| "go_eq (ListError a l) (ListError a' l') = (a = a')"
| "go_eq (SetError a s) (SetError a' s') = (a = a')"
| "go_eq e e' = False"

text \<open>
  \<^verbatim>\<open>eris.Is(err, target)\<close>: when one of the two is nil the result is \<^verbatim>\<open>err == target\<close>;
  otherwise the loop goes down the chain of \<open>err\<close> and returns true at the first error
  that is equal to the target or whose method \<^verbatim>\<open>Is\<close> accepts it.
\<close>

fun eris_Is_loop :: "error list \<Rightarrow> error \<Rightarrow> failure + bool" where
  "eris_Is_loop [] target = Inr False"
| "eris_Is_loop (e # es) target =
     (if go_eq e target then Inr True
      else (case Is_method e target of
              Inl f \<Rightarrow> Inl f
            | Inr b \<Rightarrow> if b then Inr True else eris_Is_loop es target))"

definition eris_Is :: "error option \<Rightarrow> error option \<Rightarrow> failure + bool" where
  "eris_Is err target =
     (case err of
        None \<Rightarrow> Inr (err = target)
      | Some e \<Rightarrow>
          (case target of
             None \<Rightarrow> Inr (err = target)
           | Some t \<Rightarrow> eris_Is_loop (Unwrap_chain e) t))"

text \<open>
  An eris value that is equal to the target is accepted by its method \<^verbatim>\<open>Is\<close>: the
  comparison of two eris values decides nothing in \<^verbatim>\<open>eris.Is\<close>.
\<close>

lemma go_eq_Eris_Is_method: "go_eq (Eris r) target \<Longrightarrow> Is_method (Eris r) target = Inr True"
  by (cases target; cases r) auto

section \<open>The construction API\<close>

definition newError :: "eris \<Rightarrow> error" where
  "newError err = ErrorImpl err"

text \<open>
  \<^verbatim>\<open>unwrap(err)\<close>: the field of the first \<^verbatim>\<open>errorImpl\<close> in the chain of \<open>err\<close> when there is
  one, \<open>err\<close> itself otherwise (nil for nil).
\<close>

definition unwrap :: "error option \<Rightarrow> error option" where
  "unwrap err = (case As_errorImpl err of Some errObject \<Rightarrow> Some (Eris errObject) | None \<Rightarrow> err)"

text \<open>The same on an error that is not nil, where the result is not nil either.\<close>

definition unwrap_nonnil :: "error \<Rightarrow> error" where
  "unwrap_nonnil e = (case As_errorImpl (Some e) of Some errObject \<Rightarrow> Eris errObject | None \<Rightarrow> e)"


text \<open>The result of \<^verbatim>\<open>unwrap\<close> is never an \<^verbatim>\<open>errorImpl\<close>.\<close>

lemma unwrap_nonnil_not_ErrorImpl: "unwrap_nonnil e \<noteq> ErrorImpl r"
  by (cases e) (auto simp: unwrap_nonnil_def As_errorImpl_def split: option.splits)

definition New :: "string \<Rightarrow> any list \<Rightarrow> error" where
  "New msg fields = newError (eris_New (buildErrorMessage msg fields))"

definition Errorf :: "Sprintf \<Rightarrow> string \<Rightarrow> any list \<Rightarrow> error" where
  "Errorf sprintf msg args =
     (case separateArgsAndFields msg args of
        (args', fields) \<Rightarrow>
          if length args' = 0 then New msg fields
          else newError (eris_Errorf sprintf (buildErrorMessage msg fields) args'))"

definition Wrap :: "error option \<Rightarrow> string \<Rightarrow> any list \<Rightarrow> error" where
  "Wrap err msg fields =
     (case err of
        None \<Rightarrow> New msg fields
      | Some e \<Rightarrow> newError (eris_Wrap (unwrap_nonnil e) (buildErrorMessage msg fields)))"

text \<open>
  In \<^verbatim>\<open>Wrapf\<close> the statement \<^verbatim>\<open>args, fields := separateArgsAndFields(msg, args)\<close> assigns
  the parameter \<^verbatim>\<open>args\<close>: the call \<^verbatim>\<open>Wrap(err, msg, args...)\<close> that follows passes the
  first component of the split, \<open>args'\<close> here.
\<close>

definition Wrapf :: "Sprintf \<Rightarrow> error option \<Rightarrow> string \<Rightarrow> any list \<Rightarrow> error" where
  "Wrapf sprintf err msg args =
     (case err of
        None \<Rightarrow> Errorf sprintf msg args
      | Some e \<Rightarrow>
          (case separateArgsAndFields msg args of
             (args', fields) \<Rightarrow>
               if length args' = 0 then Wrap err msg args'
               else newError (eris_Wrapf sprintf (unwrap_nonnil e)
                                (buildErrorMessage msg fields) args')))"

section \<open>JoinErrors\<close>

text \<open>
  The loop \<^verbatim>\<open>for i, err := range errs\<close> with the slice \<open>b\<close>: a nil error and an error
  with an empty message are skipped, and the separator is appended when \<^verbatim>\<open>i > 0\<close>.
\<close>

fun JoinErrors_loop :: "nat \<Rightarrow> string \<Rightarrow> error option list \<Rightarrow> failure + string" where
  "JoinErrors_loop i b [] = Inr b"
| "JoinErrors_loop i b (None # errs) = JoinErrors_loop (Suc i) b errs"
| "JoinErrors_loop i b (Some err # errs) =
     (case Error err of
        Inl f \<Rightarrow> Inl f
      | Inr msg \<Rightarrow>
          if msg = [] then JoinErrors_loop (Suc i) b errs
          else JoinErrors_loop (Suc i) ((if 0 < i then b @ ''; '' else b) @ msg) errs)"

definition JoinErrors :: "error option list \<Rightarrow> failure + error option" where
  "JoinErrors errs =
     (case JoinErrors_loop 0 [] errs of
        Inl f \<Rightarrow> Inl f
      | Inr b \<Rightarrow> if 0 < length b then Inr (Some (New b [])) else Inr None)"

text \<open>A method call \<^verbatim>\<open>err.Error()\<close> on an interface value that may be nil.\<close>

definition call_Error :: "error option \<Rightarrow> failure + string" where
  "call_Error err = (case err of None \<Rightarrow> Inl NilDereference | Some e \<Rightarrow> Error e)"

section \<open>Chain inspection\<close>

text \<open>
  The part of \<^verbatim>\<open>Is\<close> after the two composite cases: \<open>Is_targets\<close> is the loop over
  \<^verbatim>\<open>targets\<close>, which returns true at the first match and \<open>res\<close> after the loop.
\<close>

fun Is_targets :: "error option \<Rightarrow> error option list \<Rightarrow> bool \<Rightarrow> failure + bool" where
  "Is_targets err [] res = Inr res"
| "Is_targets err (t # targets) res =
     (case eris_Is (unwrap err) (unwrap t) of
        Inl f \<Rightarrow> Inl f
      | Inr b \<Rightarrow> if b then Inr True else Is_targets err targets res)"

definition Is_chain :: "error option \<Rightarrow> error option \<Rightarrow> error option list \<Rightarrow> failure + bool" where
  "Is_chain err target targets =
     (case eris_Is (unwrap err) (unwrap target) of
        Inl f \<Rightarrow> Inl f
      | Inr res \<Rightarrow>
          if \<not> res \<and> 0 < length targets then Is_targets err targets res else Inr res)"

text \<open>
  The members of a composite found in the chain of an error are smaller than the error:
  this is what makes the recursion of \<^verbatim>\<open>Is\<close> through \<^verbatim>\<open>Has\<close> end.
\<close>

lemma size_chain:
  "x \<in> set (Unwrap_chain e) \<Longrightarrow> size x \<le> size e"
  "x \<in> set (eris_chain r) \<Longrightarrow> size x \<le> Suc (size r)"
  by (induction e and r arbitrary: x and x rule: Unwrap_chain_eris_chain.induct)
     (fastforce split: option.splits)+

lemma firstListError_mem: "firstListError es = Some l \<Longrightarrow> \<exists>a. ListError a l \<in> set es"
  by (induction es rule: firstListError.induct) auto

lemma firstSetError_mem: "firstSetError es = Some s \<Longrightarrow> \<exists>a. SetError a s \<in> set es"
  by (induction es rule: firstSetError.induct) auto

lemma As_listError_size:
  "As_listError err = Some l \<Longrightarrow>
   size_list size l < (case err of None \<Rightarrow> 0 | Some e \<Rightarrow> size e)"
  by (auto simp: As_listError_def split: option.splits
           dest!: firstListError_mem size_chain(1))

lemma size_snd_le:
  "size_list size (map snd s) \<le> size_list (size_prod (\<lambda>x. 0) size) s"
  by (induction s) auto

lemma As_setError_size:
  "As_setError err = Some s \<Longrightarrow>
   size_list size (map snd s) < (case err of None \<Rightarrow> 0 | Some e \<Rightarrow> size e)"
  using size_snd_le [of s]
  by (auto simp: As_setError_def split: option.splits
           dest!: firstSetError_mem size_chain(1))

text \<open>
  \<^verbatim>\<open>Is(err, target, targets...)\<close> with the loops of \<^verbatim>\<open>Has\<close>. \<^verbatim>\<open>Set.Has\<close> ranges over
  the values of the map and \<^verbatim>\<open>List.Has\<close> over the slice with the same body: \<open>Has_loop\<close>
  is that loop over the members, \<open>Has_targets\<close> the inner loop over \<^verbatim>\<open>errs\<close>.
\<close>

function Is :: "error option \<Rightarrow> error option \<Rightarrow> error option list \<Rightarrow> failure + bool"
  and Has_loop :: "error list \<Rightarrow> error option \<Rightarrow> error option list \<Rightarrow> failure + bool"
  and Has_targets :: "error \<Rightarrow> error option list \<Rightarrow> failure + bool" where
  "Is err target targets =
     (case As_setError err of
        Some s \<Rightarrow> Has_loop (map snd s) target targets
      | None \<Rightarrow>
          (case As_listError err of
             Some l \<Rightarrow> Has_loop l target targets
           | None \<Rightarrow> Is_chain err target targets))"
| "Has_loop [] err errs = Inr False"
| "Has_loop (e # es) err errs =
     (case Is (Some e) err [] of
        Inl f \<Rightarrow> Inl f
      | Inr b \<Rightarrow>
          if b then Inr True
          else (case Has_targets e errs of
                  Inl f \<Rightarrow> Inl f
                | Inr b2 \<Rightarrow> if b2 then Inr True else Has_loop es err errs))"
| "Has_targets e [] = Inr False"
| "Has_targets e (err2 # errs) =
     (case Is (Some e) err2 [] of
        Inl f \<Rightarrow> Inl f
      | Inr b \<Rightarrow> if b then Inr True else Has_targets e errs)"
  by pat_completeness auto
termination
  by (relation "measures
     [\<lambda>x. case x of
             Inl (err, t, ts) \<Rightarrow> (case err of None \<Rightarrow> 0 | Some e \<Rightarrow> size e)
           | Inr (Inl (es, t, ts)) \<Rightarrow> size_list size es
           | Inr (Inr (e, ts)) \<Rightarrow> size e,
      \<lambda>x. case x of
             Inl (err, t, ts) \<Rightarrow> 0
           | Inr (Inl (es, t, ts)) \<Rightarrow> 0
           | Inr (Inr (e, ts)) \<Rightarrow> Suc (length ts)]")
     (auto dest: As_listError_size As_setError_size)

declare Is.simps [simp del]

text \<open>Two results of \<^verbatim>\<open>errors.New\<close> match when they are the same object.\<close>

lemma Is_ErrorString:
  "Is (Some (ErrorString a m)) (Some (ErrorString b n)) [] = Inr (a = b)"
  by (simp add: Is.simps As_setError_def As_listError_def Is_chain_def unwrap_def
      As_errorImpl_def eris_Is_def)

section \<open>The containers\<close>

text \<open>
  The containers are used through pointers (\<^verbatim>\<open>*List\<close>, \<^verbatim>\<open>*Set\<close>): a container is a value
  at an address, and \<open>addr\<close> is that address, which the composite of \<^verbatim>\<open>Err()\<close> holds.
\<close>

record object =
  addr :: nat

text \<open>
  \<^verbatim>\<open>List\<close> holds the slice \<^verbatim>\<open>errs\<close>. A method with a pointer receiver returns the
  container after the call. \<open>NewList a\<close> is the container that \<^verbatim>\<open>NewList()\<close> allocates at
  the address \<open>a\<close>.
\<close>

record List = object +
  errs :: "error list"

definition NewList :: "nat \<Rightarrow> List" where
  "NewList a = \<lparr>addr = a, errs = []\<rparr>"

definition List_Add :: "List \<Rightarrow> error option \<Rightarrow> List" where
  "List_Add e err = (case err of None \<Rightarrow> e | Some x \<Rightarrow> e\<lparr>errs := errs e @ [x]\<rparr>)"

definition List_New :: "List \<Rightarrow> string \<Rightarrow> any list \<Rightarrow> List" where
  "List_New e err flds = e\<lparr>errs := errs e @ [New err flds]\<rparr>"

definition List_Errorf :: "Sprintf \<Rightarrow> List \<Rightarrow> string \<Rightarrow> any list \<Rightarrow> List" where
  "List_Errorf sprintf e format args = e\<lparr>errs := errs e @ [Errorf sprintf format args]\<rparr>"

definition List_Wrap :: "List \<Rightarrow> error option \<Rightarrow> string \<Rightarrow> any list \<Rightarrow> List" where
  "List_Wrap e err format flds = e\<lparr>errs := errs e @ [Wrap err format flds]\<rparr>"

definition List_Wrapf :: "Sprintf \<Rightarrow> List \<Rightarrow> error option \<Rightarrow> string \<Rightarrow> any list \<Rightarrow> List" where
  "List_Wrapf sprintf e err format args =
     e\<lparr>errs := errs e @ [Wrapf sprintf err format args]\<rparr>"

definition List_Has :: "List \<Rightarrow> error option \<Rightarrow> error option list \<Rightarrow> failure + bool" where
  "List_Has e err errs' = Has_loop (errs e) err errs'"

definition List_Err :: "List \<Rightarrow> error option" where
  "List_Err e = (if length (errs e) = 0 then None else Some (ListError (addr e) (errs e)))"

definition List_Empty :: "List \<Rightarrow> bool" where
  "List_Empty e = (length (errs e) = 0)"

definition List_NotEmpty :: "List \<Rightarrow> bool" where
  "List_NotEmpty e = (length (errs e) \<noteq> 0)"

definition List_Clear :: "List \<Rightarrow> List" where
  "List_Clear e = e\<lparr>errs := []\<rparr>"

definition List_Len :: "List \<Rightarrow> nat" where
  "List_Len e = length (errs e)"

definition listError_Error :: "List \<Rightarrow> failure + string" where
  "listError_Error e =
     (if length (errs e) = 0 then Inr []
      else (case JoinErrors (map Some (errs e)) of
              Inl f \<Rightarrow> Inl f
            | Inr joined \<Rightarrow> call_Error joined))"

text \<open>
  \<^verbatim>\<open>Set\<close> holds the map \<^verbatim>\<open>errs\<close> from messages to errors, here the association list
  \<open>errs_map\<close> (the name \<open>errs\<close> is the field of \<open>List\<close>). An assignment
  \<^verbatim>\<open>e.errs[key] = err\<close> is \<open>AList.update\<close>: it replaces the value of a key that is there
  and adds the pair otherwise, so the keys stay distinct and the length of the list is
  \<^verbatim>\<open>len(e.errs)\<close>. Go leaves the order of a \<^verbatim>\<open>range\<close> over a map open: the model ranges
  in the order of the list, and what is proved of a \<open>Set\<close> is proved for every order.
  The map is the one \<^verbatim>\<open>NewSet\<close> made, never nil.
\<close>

record Set = object +
  errs_map :: "(string \<times> error) list"

definition NewSet :: "nat \<Rightarrow> Set" where
  "NewSet a = \<lparr>addr = a, errs_map = []\<rparr>"

text \<open>The statement \<^verbatim>\<open>e.errs[err.Error()] = err\<close>.\<close>

definition Set_store :: "Set \<Rightarrow> error \<Rightarrow> failure + Set" where
  "Set_store e err =
     (case Error err of
        Inl f \<Rightarrow> Inl f
      | Inr key \<Rightarrow> Inr (e\<lparr>errs_map := AList.update key err (errs_map e)\<rparr>))"

definition Set_Add :: "Set \<Rightarrow> error option \<Rightarrow> failure + Set" where
  "Set_Add e err = (case err of None \<Rightarrow> Inr e | Some x \<Rightarrow> Set_store e x)"

definition Set_New :: "Set \<Rightarrow> string \<Rightarrow> any list \<Rightarrow> failure + Set" where
  "Set_New e msg flds = Set_store e (New msg flds)"

definition Set_Errorf :: "Sprintf \<Rightarrow> Set \<Rightarrow> string \<Rightarrow> any list \<Rightarrow> failure + Set" where
  "Set_Errorf sprintf e format args = Set_store e (Errorf sprintf format args)"

definition Set_Wrap :: "Set \<Rightarrow> error option \<Rightarrow> string \<Rightarrow> any list \<Rightarrow> failure + Set" where
  "Set_Wrap e err format flds = Set_store e (Wrap err format flds)"

definition Set_Wrapf :: "Sprintf \<Rightarrow> Set \<Rightarrow> error option \<Rightarrow> string \<Rightarrow> any list \<Rightarrow> failure + Set" where
  "Set_Wrapf sprintf e err format args = Set_store e (Wrapf sprintf err format args)"

definition Set_Has :: "Set \<Rightarrow> error option \<Rightarrow> error option list \<Rightarrow> failure + bool" where
  "Set_Has e err errs' = Has_loop (map snd (errs_map e)) err errs'"

definition Set_Err :: "Set \<Rightarrow> error option" where
  "Set_Err e = (if length (errs_map e) = 0 then None else Some (SetError (addr e) (errs_map e)))"

definition Set_Empty :: "Set \<Rightarrow> bool" where
  "Set_Empty e = (length (errs_map e) = 0)"

definition Set_Clear :: "Set \<Rightarrow> Set" where
  "Set_Clear e = e\<lparr>errs_map := []\<rparr>"

definition Set_Len :: "Set \<Rightarrow> nat" where
  "Set_Len e = length (errs_map e)"

definition setError_Error :: "Set \<Rightarrow> failure + string" where
  "setError_Error e =
     (if length (errs_map e) = 0 then Inr []
      else (case JoinErrors (map (\<lambda>k. Some (snd k)) (errs_map e)) of
              Inl f \<Rightarrow> Inl f
            | Inr joined \<Rightarrow> call_Error joined))"




text \<open>
  A sequence of calls of \<^verbatim>\<open>Add\<close> on a \<open>Set\<close>, and the messages of the errors of such
  a sequence that are not nil (and whose \<^verbatim>\<open>Error()\<close> returns).
\<close>

fun Set_Add_all :: "Set \<Rightarrow> error option list \<Rightarrow> failure + Set" where
  "Set_Add_all e [] = Inr e"
| "Set_Add_all e (err # rest) =
     (case Set_Add e err of Inl f \<Rightarrow> Inl f | Inr e' \<Rightarrow> Set_Add_all e' rest)"

fun rendered :: "error option list \<Rightarrow> string list" where
  "rendered [] = []"
| "rendered (None # rest) = rendered rest"
| "rendered (Some x # rest) =
     (case Error x of Inl f \<Rightarrow> rendered rest | Inr key \<Rightarrow> key # rendered rest)"

section \<open>The containers behind a mutex\<close>

text \<open>
  \<^verbatim>\<open>SafeList\<close> and \<^verbatim>\<open>SafeSet\<close> hold a container and a \<^verbatim>\<open>sync.Mutex\<close>; the mutex is
  modelled by the boolean "held", for one thread of control. \<^verbatim>\<open>Lock\<close> of a mutex that
  is held does not return; \<^verbatim>\<open>Unlock\<close> releases it. Every method is
  \<^verbatim>\<open>e.mu.Lock(); defer e.mu.Unlock()\<close> followed by the call of the container's method,
  and returns the result of that call with the container after it.
\<close>

definition Lock :: "bool \<Rightarrow> failure + bool" where
  "Lock mu = (if mu then Inl Deadlock else Inr True)"

definition Unlock :: "bool \<Rightarrow> bool" where
  "Unlock mu = False"

record SafeList =
  sl_List :: List
  sl_mu :: bool

definition NewSafeList :: "nat \<Rightarrow> SafeList" where
  "NewSafeList a = \<lparr>sl_List = NewList a, sl_mu = False\<rparr>"

definition SafeList_Add :: "SafeList \<Rightarrow> error option \<Rightarrow> failure + SafeList" where
  "SafeList_Add e err =
     (case Lock (sl_mu e) of
        Inl f \<Rightarrow> Inl f
      | Inr mu \<Rightarrow> Inr (e\<lparr>sl_List := List_Add (sl_List e) err, sl_mu := Unlock mu\<rparr>))"

definition SafeList_New :: "SafeList \<Rightarrow> string \<Rightarrow> any list \<Rightarrow> failure + SafeList" where
  "SafeList_New e err flds =
     (case Lock (sl_mu e) of
        Inl f \<Rightarrow> Inl f
      | Inr mu \<Rightarrow> Inr (e\<lparr>sl_List := List_New (sl_List e) err flds, sl_mu := Unlock mu\<rparr>))"

definition SafeList_Errorf :: "Sprintf \<Rightarrow> SafeList \<Rightarrow> string \<Rightarrow> any list \<Rightarrow> failure + SafeList" where
  "SafeList_Errorf sprintf e format args =
     (case Lock (sl_mu e) of
        Inl f \<Rightarrow> Inl f
      | Inr mu \<Rightarrow>
          Inr (e\<lparr>sl_List := List_Errorf sprintf (sl_List e) format args, sl_mu := Unlock mu\<rparr>))"

definition SafeList_Wrap :: "SafeList \<Rightarrow> error option \<Rightarrow> string \<Rightarrow> any list \<Rightarrow> failure + SafeList" where
  "SafeList_Wrap e err format flds =
     (case Lock (sl_mu e) of
        Inl f \<Rightarrow> Inl f
      | Inr mu \<Rightarrow>
          Inr (e\<lparr>sl_List := List_Wrap (sl_List e) err format flds, sl_mu := Unlock mu\<rparr>))"

definition SafeList_Wrapf ::
  "Sprintf \<Rightarrow> SafeList \<Rightarrow> error option \<Rightarrow> string \<Rightarrow> any list \<Rightarrow> failure + SafeList" where
  "SafeList_Wrapf sprintf e err format args =
     (case Lock (sl_mu e) of
        Inl f \<Rightarrow> Inl f
      | Inr mu \<Rightarrow>
          Inr (e\<lparr>sl_List := List_Wrapf sprintf (sl_List e) err format args,
                 sl_mu := Unlock mu\<rparr>))"

text \<open>\<^verbatim>\<open>SafeList.Has(err error)\<close> has one parameter and calls \<^verbatim>\<open>e.List.Has(err)\<close>.\<close>

definition SafeList_Has :: "SafeList \<Rightarrow> error option \<Rightarrow> failure + bool \<times> SafeList" where
  "SafeList_Has e err =
     (case Lock (sl_mu e) of
        Inl f \<Rightarrow> Inl f
      | Inr mu \<Rightarrow>
          (case List_Has (sl_List e) err [] of
             Inl f \<Rightarrow> Inl f
           | Inr b \<Rightarrow> Inr (b, e\<lparr>sl_mu := Unlock mu\<rparr>)))"

definition SafeList_Empty :: "SafeList \<Rightarrow> failure + bool \<times> SafeList" where
  "SafeList_Empty e =
     (case Lock (sl_mu e) of
        Inl f \<Rightarrow> Inl f
      | Inr mu \<Rightarrow> Inr (List_Empty (sl_List e), e\<lparr>sl_mu := Unlock mu\<rparr>))"

definition SafeList_NotEmpty :: "SafeList \<Rightarrow> failure + bool \<times> SafeList" where
  "SafeList_NotEmpty e =
     (case Lock (sl_mu e) of
        Inl f \<Rightarrow> Inl f
      | Inr mu \<Rightarrow> Inr (List_NotEmpty (sl_List e), e\<lparr>sl_mu := Unlock mu\<rparr>))"

definition SafeList_Err :: "SafeList \<Rightarrow> failure + error option \<times> SafeList" where
  "SafeList_Err e =
     (case Lock (sl_mu e) of
        Inl f \<Rightarrow> Inl f
      | Inr mu \<Rightarrow> Inr (List_Err (sl_List e), e\<lparr>sl_mu := Unlock mu\<rparr>))"

definition SafeList_Clear :: "SafeList \<Rightarrow> failure + SafeList" where
  "SafeList_Clear e =
     (case Lock (sl_mu e) of
        Inl f \<Rightarrow> Inl f
      | Inr mu \<Rightarrow> Inr (e\<lparr>sl_List := List_Clear (sl_List e), sl_mu := Unlock mu\<rparr>))"

definition SafeList_Len :: "SafeList \<Rightarrow> failure + nat \<times> SafeList" where
  "SafeList_Len e =
     (case Lock (sl_mu e) of
        Inl f \<Rightarrow> Inl f
      | Inr mu \<Rightarrow> Inr (List_Len (sl_List e), e\<lparr>sl_mu := Unlock mu\<rparr>))"

record SafeSet =
  ss_set :: Set
  ss_mu :: bool

definition NewSafeSet :: "nat \<Rightarrow> SafeSet" where
  "NewSafeSet a = \<lparr>ss_set = NewSet a, ss_mu = False\<rparr>"

text \<open>
  The methods of \<^verbatim>\<open>SafeSet\<close> that store an error: the call under the lock is \<open>op\<close>, and
  a panic of it leaves through the deferred \<^verbatim>\<open>Unlock\<close>.
\<close>

definition SafeSet_locked :: "SafeSet \<Rightarrow> (Set \<Rightarrow> failure + Set) \<Rightarrow> failure + SafeSet" where
  "SafeSet_locked e op =
     (case Lock (ss_mu e) of
        Inl f \<Rightarrow> Inl f
      | Inr mu \<Rightarrow>
          (case op (ss_set e) of
             Inl f \<Rightarrow> Inl f
           | Inr s \<Rightarrow> Inr (e\<lparr>ss_set := s, ss_mu := Unlock mu\<rparr>)))"

definition SafeSet_Add :: "SafeSet \<Rightarrow> error option \<Rightarrow> failure + SafeSet" where
  "SafeSet_Add e err = SafeSet_locked e (\<lambda>s. Set_Add s err)"

definition SafeSet_New :: "SafeSet \<Rightarrow> string \<Rightarrow> any list \<Rightarrow> failure + SafeSet" where
  "SafeSet_New e err flds = SafeSet_locked e (\<lambda>s. Set_New s err flds)"

definition SafeSet_Errorf :: "Sprintf \<Rightarrow> SafeSet \<Rightarrow> string \<Rightarrow> any list \<Rightarrow> failure + SafeSet" where
  "SafeSet_Errorf sprintf e format args = SafeSet_locked e (\<lambda>s. Set_Errorf sprintf s format args)"

definition SafeSet_Wrap :: "SafeSet \<Rightarrow> error option \<Rightarrow> string \<Rightarrow> any list \<Rightarrow> failure + SafeSet" where
  "SafeSet_Wrap e err format flds = SafeSet_locked e (\<lambda>s. Set_Wrap s err format flds)"

definition SafeSet_Wrapf ::
  "Sprintf \<Rightarrow> SafeSet \<Rightarrow> error option \<Rightarrow> string \<Rightarrow> any list \<Rightarrow> failure + SafeSet" where
  "SafeSet_Wrapf sprintf e err format args =
     SafeSet_locked e (\<lambda>s. Set_Wrapf sprintf s err format args)"

text \<open>\<^verbatim>\<open>SafeSet.Has(err error)\<close> has one parameter and calls \<^verbatim>\<open>e.set.Has(err)\<close>.\<close>

definition SafeSet_Has :: "SafeSet \<Rightarrow> error option \<Rightarrow> failure + bool \<times> SafeSet" where
  "SafeSet_Has e err =
     (case Lock (ss_mu e) of
        Inl f \<Rightarrow> Inl f
      | Inr mu \<Rightarrow>
          (case Set_Has (ss_set e) err [] of
             Inl f \<Rightarrow> Inl f
           | Inr b \<Rightarrow> Inr (b, e\<lparr>ss_mu := Unlock mu\<rparr>)))"

definition SafeSet_Empty :: "SafeSet \<Rightarrow> failure + bool \<times> SafeSet" where
  "SafeSet_Empty e =
     (case Lock (ss_mu e) of
        Inl f \<Rightarrow> Inl f
      | Inr mu \<Rightarrow> Inr (Set_Empty (ss_set e), e\<lparr>ss_mu := Unlock mu\<rparr>))"

definition SafeSet_Err :: "SafeSet \<Rightarrow> failure + error option \<times> SafeSet" where
  "SafeSet_Err e =
     (case Lock (ss_mu e) of
        Inl f \<Rightarrow> Inl f
      | Inr mu \<Rightarrow> Inr (Set_Err (ss_set e), e\<lparr>ss_mu := Unlock mu\<rparr>))"

definition SafeSet_Clear :: "SafeSet \<Rightarrow> failure + SafeSet" where
  "SafeSet_Clear e =
     (case Lock (ss_mu e) of
        Inl f \<Rightarrow> Inl f
      | Inr mu \<Rightarrow> Inr (e\<lparr>ss_set := Set_Clear (ss_set e), ss_mu := Unlock mu\<rparr>))"

definition SafeSet_Len :: "SafeSet \<Rightarrow> failure + nat \<times> SafeSet" where
  "SafeSet_Len e =
     (case Lock (ss_mu e) of
        Inl f \<Rightarrow> Inl f
      | Inr mu \<Rightarrow> Inr (Set_Len (ss_set e), e\<lparr>ss_mu := Unlock mu\<rparr>))"

text \<open>
  A stand-in for \<^verbatim>\<open>fmt.Sprintf\<close> where a statement is evaluated at a concrete input: it
  returns the format as it is.
\<close>

definition no_Sprintf :: Sprintf where
  "no_Sprintf format args = format"

section \<open>The field formatter: fewer than two fields, odd length, keys that are not strings\<close>

lemma buildErrorMessage_loop: "buildErrorMessage base flds = buildLoop flds base"
  by (cases flds rule: pairs.cases) (simp_all add: buildErrorMessage_def)

lemma buildLoop_tokens: "buildLoop flds out = out @ concat (map token (pairs flds))"
  by (induction flds out rule: buildLoop.induct) (auto simp: token_def split: any.splits)

lemma pairs_butlast: "odd (length flds) \<Longrightarrow> pairs (butlast flds) = pairs flds"
  by (induction flds rule: pairs.induct) auto

lemma pairs_append: "even (length pre) \<Longrightarrow> pairs (pre @ post) = pairs pre @ pairs post"
  by (induction pre rule: pairs.induct) auto

lemma token_not_string: "\<not> isString k \<Longrightarrow> token (k, v) = []"
  by (cases k) (simp_all add: token_def isString_def)

text \<open>
  Claim C5. \<^verbatim>\<open>buildErrorMessage\<close> returns the base unchanged when there are fewer than
  two fields; on a sequence of odd length it returns what it returns on the sequence
  without its last element; a pair whose key is not a string, at any even position,
  can be removed without changing the result; and the result is the base followed by
  the tokens of the pairs in their order, a token being a space, the key, \<^verbatim>\<open>=\<close> and the
  printed value for a string key and empty otherwise.
\<close>

theorem buildErrorMessage_field_formatter:
  "(length flds < 2 \<longrightarrow> buildErrorMessage base flds = base) \<and>
   (odd (length flds) \<longrightarrow>
      buildErrorMessage base flds = buildErrorMessage base (butlast flds)) \<and>
   (even (length pre) \<and> \<not> isString k \<longrightarrow>
      buildErrorMessage base (pre @ k # v # post) = buildErrorMessage base (pre @ post)) \<and>
   buildErrorMessage base flds = base @ concat (map token (pairs flds))"
proof (intro conjI impI)
  show "buildErrorMessage base flds = base" if "length flds < 2"
    using that by (simp add: buildErrorMessage_def)
  show "buildErrorMessage base flds = buildErrorMessage base (butlast flds)"
    if "odd (length flds)"
    using that by (simp add: buildErrorMessage_loop buildLoop_tokens pairs_butlast)
  show "buildErrorMessage base (pre @ k # v # post) = buildErrorMessage base (pre @ post)"
    if "even (length pre) \<and> \<not> isString k"
  proof -
    have "pairs (pre @ k # v # post) = pairs pre @ (k, v) # pairs post"
      using that by (simp add: pairs_append)
    moreover have "pairs (pre @ post) = pairs pre @ pairs post"
      using that by (simp add: pairs_append)
    ultimately show ?thesis
      using that by (simp add: buildErrorMessage_loop buildLoop_tokens token_not_string)
  qed
  show "buildErrorMessage base flds = base @ concat (map token (pairs flds))"
    by (simp add: buildErrorMessage_loop buildLoop_tokens)
qed

theorem buildErrorMessage_field_formatter_witness:
  "buildErrorMessage ''some-err'' [AString ''field4''] = ''some-err'' \<and>
   buildErrorMessage ''some-err''
     [AString ''field'', AString ''value'', AString ''field2'', ASlice [AInt 123, AInt 321],
      AString ''field3'', AInt 123, AString ''field4'']
   = ''some-err field=value field2=[123 321] field3=123'' \<and>
   buildErrorMessage ''e'' [AString ''a'', AInt 1, AInt 7, ABool True, AString ''k'', AString ''v'']
   = buildErrorMessage ''e'' [AString ''a'', AInt 1, AString ''k'', AString ''v''] \<and>
   buildErrorMessage ''e'' [AString ''a'', AInt 1, AInt 7, ABool True, AString ''k'', AString ''v'']
   = ''e a=1 k=v''"
  using buildErrorMessage_field_formatter
      [where flds = "[AString ''field4'']" and base = "''some-err''"
         and pre = "[]" and k = ANil and v = ANil and post = "[]"]
    buildErrorMessage_field_formatter
      [where flds = "[AString ''field'', AString ''value'', AString ''field2'',
            ASlice [AInt 123, AInt 321], AString ''field3'', AInt 123, AString ''field4'']"
         and base = "''some-err''" and pre = "[]" and k = ANil and v = ANil and post = "[]"]
    buildErrorMessage_field_formatter
      [where flds = "[AString ''a'', AInt 1, AInt 7, ABool True, AString ''k'', AString ''v'']"
         and base = "''e''" and pre = "[AString ''a'', AInt 1]" and k = "AInt 7"
         and v = "ABool True" and post = "[AString ''k'', AString ''v'']"]
  by (simp add: isString_def token_def digits.simps buildErrorMessage_def)

section \<open>Errorf: the split of the arguments\<close>

text \<open>
  Claim C6. With \<open>N\<close> the number of \<^verbatim>\<open>%\<close> characters of \<open>msg\<close>: when \<open>N\<close> is 0 all the
  arguments are fields and \<^verbatim>\<open>Errorf\<close> is \<^verbatim>\<open>New(msg, args...)\<close>; when there are fewer than
  \<open>N\<close> arguments the split returns them all as format arguments with no fields, and
  \<^verbatim>\<open>Errorf\<close> passes them all to \<^verbatim>\<open>eris.Errorf\<close> with the message as it is (with no
  argument at all there is nothing to pass and the result is \<^verbatim>\<open>New(msg)\<close>); otherwise the
  first \<open>N\<close> arguments are the format arguments and the rest the fields.
\<close>

theorem Errorf_split:
  "separateArgsAndFields msg args =
     (if count_list msg (CHR ''%'') = 0 then ([], args)
      else if length args < count_list msg (CHR ''%'') then (args, [])
      else (take (count_list msg (CHR ''%'')) args, drop (count_list msg (CHR ''%'')) args)) \<and>
   Errorf sprintf msg args =
     (if count_list msg (CHR ''%'') = 0 then New msg args
      else if length args < count_list msg (CHR ''%'')
        then (if args = [] then New msg [] else newError (eris_Errorf sprintf msg args))
      else newError (eris_Errorf sprintf
             (buildErrorMessage msg (drop (count_list msg (CHR ''%'')) args))
             (take (count_list msg (CHR ''%'')) args)))"
proof -
  let ?N = "count_list msg (CHR ''%'')"
  have split: "separateArgsAndFields msg args =
     (if ?N = 0 then ([], args) else if length args < ?N then (args, [])
      else (take ?N args, drop ?N args))"
    by (auto simp: separateArgsAndFields_def Let_def)
  have none: "buildErrorMessage msg [] = msg"
    by (simp add: buildErrorMessage_def)
  show ?thesis
    unfolding Errorf_def split using none by auto
qed

theorem Errorf_split_witness:
  "Errorf no_Sprintf ''some-err'' [AString ''field'', AString ''value'']
     = New ''some-err'' [AString ''field'', AString ''value''] \<and>
   Errorf no_Sprintf ''%s and %%'' [AString ''a'']
     = newError (eris_Errorf no_Sprintf ''%s and %%'' [AString ''a'']) \<and>
   Errorf no_Sprintf ''some-err %s %d'' [AString ''a'', AInt 1, AString ''field'', AString ''value'']
     = newError (eris_Errorf no_Sprintf ''some-err %s %d field=value'' [AString ''a'', AInt 1])"
  using Errorf_split [of "''some-err''" "[AString ''field'', AString ''value'']" no_Sprintf]
    Errorf_split [of "''%s and %%''" "[AString ''a'']" no_Sprintf]
    Errorf_split [of "''some-err %s %d''"
      "[AString ''a'', AInt 1, AString ''field'', AString ''value'']" no_Sprintf]
  by (simp add: buildErrorMessage_def)

section \<open>Wrapf without a placeholder\<close>

text \<open>
  Claim C3. For an \<open>err\<close> that is not nil and a message without \<^verbatim>\<open>%\<close>, the
  arguments are not split (none is a format argument), and
  \<^verbatim>\<open>Wrapf(err, msg, args...)\<close> falls through to \<^verbatim>\<open>Wrap\<close> and extracts no field: the result
  is the cause wrapped under \<open>msg\<close> alone, whatever the arguments and the formatter, so
  the arguments are neither formatted nor printed as fields. \<^verbatim>\<open>Errorf\<close> with such a
  message is \<^verbatim>\<open>New(msg, args...)\<close>, whose message prints the arguments as fields. For a
  nil \<open>err\<close>, \<^verbatim>\<open>Wrapf\<close> is \<^verbatim>\<open>Errorf\<close>.
\<close>

theorem Wrapf_without_placeholder:
  "(CHR ''%'' \<notin> set msg \<longrightarrow>
      separateArgsAndFields msg args = ([], args) \<and>
      Wrapf sprintf (Some e) msg args = Wrap (Some e) msg [] \<and>
      Wrapf sprintf (Some e) msg args = newError (eris_Wrap (unwrap_nonnil e) msg) \<and>
      Wrapf sprintf (Some e) msg args = Wrapf sprintf' (Some e) msg args' \<and>
      Errorf sprintf msg args = New msg args \<and>
      Error (Errorf sprintf msg args) = Inr (buildErrorMessage msg args)) \<and>
   Wrapf sprintf None msg args = Errorf sprintf msg args"
proof -
  have split: "separateArgsAndFields msg xs = ([], xs)" if "CHR ''%'' \<notin> set msg" for xs
    using that by (simp add: separateArgsAndFields_def count_list_0_iff)
  have none: "buildErrorMessage msg [] = msg"
    by (simp add: buildErrorMessage_def)
  have wrapf: "Wrapf f (Some e) msg xs = newError (eris_Wrap (unwrap_nonnil e) msg)"
    if "CHR ''%'' \<notin> set msg" for f xs
    using that none by (simp add: Wrapf_def Wrap_def split)
  have errorf: "Errorf sprintf msg args = New msg args" if "CHR ''%'' \<notin> set msg"
    using that by (simp add: Errorf_def split)
  have printed: "Error (New msg args) = Inr (buildErrorMessage msg args)"
    by (simp add: New_def newError_def eris_New_def)
  show ?thesis
    using none split wrapf errorf printed by (auto simp: Wrapf_def Wrap_def)
qed

theorem Wrapf_without_placeholder_witness:
  "Wrapf no_Sprintf (Some (ErrorString 0 ''cause'')) ''m'' [AString ''k'', AString ''v'']
     = Wrap (Some (ErrorString 0 ''cause'')) ''m'' [] \<and>
   Error (Wrapf no_Sprintf (Some (ErrorString 0 ''cause'')) ''m'' [AString ''k'', AString ''v''])
     = Inr ''m: cause'' \<and>
   Error (Errorf no_Sprintf ''m'' [AString ''k'', AString ''v'']) = Inr ''m k=v'' \<and>
   Wrapf no_Sprintf None ''m'' [AString ''k'', AString ''v'']
     = Errorf no_Sprintf ''m'' [AString ''k'', AString ''v'']"
  using Wrapf_without_placeholder
      [where msg = "''m''" and sprintf = no_Sprintf and sprintf' = no_Sprintf
         and e = "ErrorString 0 ''cause''" and args = "[AString ''k'', AString ''v'']"
         and args' = "[]"]
  by (simp add: Wrap_def newError_def eris_Wrap_def unwrap_nonnil_def As_errorImpl_def
      New_def eris_New_def buildErrorMessage_def Sprint_error_def)

section \<open>The composite errors and JoinErrors\<close>

text \<open>
  The equations of \<open>Error\<close> for the composites are the methods \<^verbatim>\<open>listError.Error\<close> and
  \<^verbatim>\<open>setError.Error\<close> as the source has them.
\<close>

lemma JoinErrors_loop_joinMessages:
  "JoinErrors_loop i b es = joinMessages i b (map (map_option Error) es)"
proof (induction i b es rule: JoinErrors_loop.induct)
  case (3 i b err es)
  then show ?case by (cases "Error err") auto
qed simp_all

lemma Error_New: "Error (New msg flds) = Inr (buildErrorMessage msg flds)"
  by (simp add: New_def newError_def eris_New_def)

lemma buildErrorMessage_Nil: "buildErrorMessage msg [] = msg"
  by (simp add: buildErrorMessage_def)

lemma Error_ListError: "Error (ListError a (errs e)) = listError_Error e"
  by (auto simp: listError_Error_def JoinErrors_def JoinErrors_loop_joinMessages comp_def
      call_Error_def Error_New buildErrorMessage_Nil split: sum.splits)

lemma Error_SetError: "Error (SetError a (errs_map e)) = setError_Error e"
  by (auto simp: setError_Error_def JoinErrors_def JoinErrors_loop_joinMessages comp_def
      call_Error_def Error_New buildErrorMessage_Nil split: sum.splits)

text \<open>
  Claim C1 fails on the code. A \<open>List\<close> or a \<open>Set\<close> that holds the one error
  \<^verbatim>\<open>New("")\<close> is not empty, so \<^verbatim>\<open>Err()\<close> returns the composite; \<^verbatim>\<open>JoinErrors\<close>
  accepts no message and returns nil, and \<^verbatim>\<open>Error()\<close> of the composite calls
  \<^verbatim>\<open>Error()\<close> on that nil.
\<close>

theorem composite_of_empty_messages_panics:
  "List_Err (List_New (NewList 10) [] []) = Some (ListError 10 [New [] []]) \<and>
   Error (New [] []) = Inr [] \<and>
   listError_Error (List_New (NewList 10) [] []) = Inl NilDereference \<and>
   Error (ListError 10 [New [] []]) = Inl NilDereference \<and>
   Set_New (NewSet 20) [] [] = Inr \<lparr>addr = 20, errs_map = [([], New [] [])]\<rparr> \<and>
   Set_Err \<lparr>addr = 20, errs_map = [([], New [] [])]\<rparr> = Some (SetError 20 [([], New [] [])]) \<and>
   setError_Error \<lparr>addr = 20, errs_map = [([], New [] [])]\<rparr> = Inl NilDereference \<and>
   Error (SetError 20 [([], New [] [])]) = Inl NilDereference"
  by (simp add: List_Err_def List_New_def NewList_def listError_Error_def JoinErrors_def
      call_Error_def Error_New buildErrorMessage_Nil Set_New_def Set_store_def NewSet_def
      Set_Err_def setError_Error_def)

text \<open>
  Claim C2 fails on the code. The separator is written when the index \<open>i\<close> of the loop
  is positive, not when a message has been accepted before: a nil error or an empty
  message in front leaves the text with a leading separator. When the first error is
  accepted, a skipped error in the middle adds nothing.
\<close>

theorem JoinErrors_leading_separator:
  "JoinErrors [None, Some (New ''a'' [])] = Inr (Some (New ''; a'' [])) \<and>
   JoinErrors [Some (New [] []), Some (New ''a'' [])] = Inr (Some (New ''; a'' [])) \<and>
   listError_Error (List_New (List_New (NewList 10) [] []) ''a'' []) = Inr ''; a'' \<and>
   JoinErrors [Some (New ''a'' []), None, Some (New ''b'' [])] = Inr (Some (New ''a; b'' []))"
  by (simp add: JoinErrors_def Error_New buildErrorMessage_Nil listError_Error_def
      List_New_def NewList_def call_Error_def)

section \<open>Err is nil exactly for the empty container\<close>

text \<open>
  Claim C8. In every state of a \<open>List\<close> or a \<open>Set\<close>, \<^verbatim>\<open>Err()\<close> is nil exactly when
  \<^verbatim>\<open>Empty()\<close> holds, and is the composite of the container exactly when it does not; a
  new container and a cleared one are empty and their \<^verbatim>\<open>Err()\<close> is nil.
\<close>

theorem Err_nil_iff_empty:
  "(List_Err l = None \<longleftrightarrow> List_Empty l) \<and>
   (List_Err l = Some (ListError (addr l) (errs l)) \<longleftrightarrow> \<not> List_Empty l) \<and>
   (List_Empty l \<longleftrightarrow> List_Len l = 0) \<and>
   (Set_Err s = None \<longleftrightarrow> Set_Empty s) \<and>
   (Set_Err s = Some (SetError (addr s) (errs_map s)) \<longleftrightarrow> \<not> Set_Empty s) \<and>
   (Set_Empty s \<longleftrightarrow> Set_Len s = 0) \<and>
   List_Empty (NewList a) \<and> List_Err (NewList a) = None \<and>
   List_Empty (List_Clear l) \<and> List_Err (List_Clear l) = None \<and>
   Set_Empty (NewSet a) \<and> Set_Err (NewSet a) = None \<and>
   Set_Empty (Set_Clear s) \<and> Set_Err (Set_Clear s) = None"
  by (simp add: List_Err_def List_Empty_def List_Len_def Set_Err_def Set_Empty_def Set_Len_def
      NewList_def NewSet_def List_Clear_def Set_Clear_def)

theorem Err_nil_iff_empty_witness:
  "List_Err (List_Add (NewList 10) (Some (ErrorString 1 ''A''))) = Some (ListError 10 [ErrorString 1 ''A'']) \<and>
   \<not> List_Empty (List_Add (NewList 10) (Some (ErrorString 1 ''A''))) \<and>
   List_Err (List_Clear (List_Add (NewList 10) (Some (ErrorString 1 ''A'')))) = None \<and>
   Set_Err \<lparr>addr = 20, errs_map = [(''A'', ErrorString 1 ''A'')]\<rparr>
     = Some (SetError 20 [(''A'', ErrorString 1 ''A'')]) \<and>
   \<not> Set_Empty \<lparr>addr = 20, errs_map = [(''A'', ErrorString 1 ''A'')]\<rparr> \<and>
   Set_Err (Set_Clear \<lparr>addr = 20, errs_map = [(''A'', ErrorString 1 ''A'')]\<rparr>) = None"
  using Err_nil_iff_empty [where l = "List_Add (NewList 10) (Some (ErrorString 1 ''A''))"
      and s = "\<lparr>addr = 20, errs_map = [(''A'', ErrorString 1 ''A'')]\<rparr>" and a = 10]
  by (simp add: List_Add_def NewList_def List_Empty_def Set_Empty_def)

section \<open>Set deduplicates by message, List does not\<close>

lemma length_update:
  "length (AList.update k v al) = (if k \<in> fst ` set al then length al else Suc (length al))"
proof -
  have "length (AList.update k v al) = length (map fst (AList.update k v al))"
    by simp
  also have "\<dots> = (if k \<in> fst ` set al then length al else Suc (length al))"
    by (simp only: update_keys) simp
  finally show ?thesis .
qed

lemma Set_store_Inr:
  "Error x = Inr key \<Longrightarrow>
   Set_store e x = Inr (e\<lparr>errs_map := AList.update key x (errs_map e)\<rparr>)"
  by (simp add: Set_store_def)

lemma Set_Len_card:
  "distinct (map fst (errs_map e)) \<Longrightarrow> Set_Len e = card (fst ` set (errs_map e))"
  by (metis Set_Len_def distinct_card length_map set_map)

lemma Set_Add_keys:
  assumes "Set_Add e err = Inr e'"
  shows "fst ` set (errs_map e') = fst ` set (errs_map e) \<union> set (rendered [err])"
    and "distinct (map fst (errs_map e)) \<Longrightarrow> distinct (map fst (errs_map e'))"
proof -
  show "fst ` set (errs_map e') = fst ` set (errs_map e) \<union> set (rendered [err])"
  proof (cases err)
    case None
    with assms show ?thesis by (simp add: Set_Add_def)
  next
    case (Some x)
    with assms obtain key where key: "Error x = Inr key"
      and e': "e' = e\<lparr>errs_map := AList.update key x (errs_map e)\<rparr>"
      by (auto simp: Set_Add_def Set_store_def split: sum.splits)
    show ?thesis
      using dom_update [of key x "errs_map e"] by (simp add: e' Some key)
  qed
  show "distinct (map fst (errs_map e'))" if "distinct (map fst (errs_map e))"
    using assms that
    by (auto simp: Set_Add_def Set_store_def distinct_update split: option.splits sum.splits)
qed

lemma rendered_Cons: "set (rendered (err # rest)) = set (rendered [err]) \<union> set (rendered rest)"
  by (cases err) (auto split: sum.splits)

lemma Set_Add_all_keys:
  "Set_Add_all e es = Inr e' \<Longrightarrow> distinct (map fst (errs_map e)) \<Longrightarrow>
   fst ` set (errs_map e') = fst ` set (errs_map e) \<union> set (rendered es) \<and>
   distinct (map fst (errs_map e'))"
proof (induction es arbitrary: e)
  case Nil
  then show ?case by simp
next
  case (Cons err rest)
  from Cons.prems(1) obtain e1 where
    step: "Set_Add e err = Inr e1" and rest: "Set_Add_all e1 rest = Inr e'"
    by (auto split: sum.splits)
  have keys1: "fst ` set (errs_map e1) = fst ` set (errs_map e) \<union> set (rendered [err])"
    and d1: "distinct (map fst (errs_map e1))"
    using Set_Add_keys [OF step] Cons.prems(2) by auto
  from Cons.IH [OF rest d1] keys1 show ?case
    by (simp only: rendered_Cons [of err rest]) auto
qed

text \<open>
  Claim C7. For a \<open>Set\<close> (its keys distinct, as \<^verbatim>\<open>NewSet\<close> and every method leave them)
  and an error whose message is \<open>key\<close>: \<^verbatim>\<open>Add\<close> leaves \<^verbatim>\<open>Len()\<close> as it is when the key is
  there and adds one otherwise, and the key then maps to the error added; adding the
  same error again changes nothing; adding another error with the same message keeps
  \<^verbatim>\<open>Len()\<close> and maps the key to that error. After a sequence of calls of \<^verbatim>\<open>Add\<close>,
  \<^verbatim>\<open>Len()\<close> is the number of keys that were there or are messages of the errors added,
  so it has grown by at most the number of distinct messages. For a \<open>List\<close>, \<^verbatim>\<open>Add\<close> of
  an error that is not nil adds one to \<^verbatim>\<open>Len()\<close>. \<^verbatim>\<open>Add\<close> of nil changes neither
  container.
\<close>

theorem Set_dedup_List_growth:
  "(distinct (map fst (errs_map s)) \<and> Error x = Inr key \<longrightarrow>
      (\<exists>s'. Set_Add s (Some x) = Inr s' \<and>
            Set_Len s' = (if key \<in> fst ` set (errs_map s) then Set_Len s else Suc (Set_Len s)) \<and>
            map_of (errs_map s') key = Some x \<and>
            distinct (map fst (errs_map s')) \<and>
            Set_Add s' (Some x) = Inr s' \<and>
            (\<forall>y. Error y = Inr key \<longrightarrow>
               (\<exists>s''. Set_Add s' (Some y) = Inr s'' \<and> Set_Len s'' = Set_Len s' \<and>
                      map_of (errs_map s'') key = Some y)))) \<and>
   (distinct (map fst (errs_map s)) \<and> Set_Add_all s es = Inr t \<longrightarrow>
      Set_Len t = card (fst ` set (errs_map s) \<union> set (rendered es)) \<and>
      Set_Len t \<le> Set_Len s + card (set (rendered es))) \<and>
   List_Len (List_Add l (Some x)) = Suc (List_Len l) \<and>
   List_Add l None = l \<and>
   Set_Add s None = Inr s"
proof (intro conjI impI)
  assume a: "distinct (map fst (errs_map s)) \<and> Error x = Inr key"
  let ?s' = "s\<lparr>errs_map := AList.update key x (errs_map s)\<rparr>"
  have add: "Set_Add s (Some x) = Inr ?s'"
    using a by (simp add: Set_Add_def Set_store_Inr)
  have len: "Set_Len ?s' = (if key \<in> fst ` set (errs_map s) then Set_Len s else Suc (Set_Len s))"
    by (simp add: Set_Len_def length_update)
  have look: "map_of (errs_map ?s') key = Some x"
    by (simp add: update_conv')
  have dist: "distinct (map fst (errs_map ?s'))"
    using a by (simp add: distinct_update)
  have again: "Set_Add ?s' (Some x) = Inr ?s'"
    using a by (simp add: Set_Add_def Set_store_Inr)
  have other: "\<exists>s''. Set_Add ?s' (Some y) = Inr s'' \<and> Set_Len s'' = Set_Len ?s' \<and>
                 map_of (errs_map s'') key = Some y" if "Error y = Inr key" for y
    using that by (simp add: Set_Add_def Set_store_Inr Set_Len_def length_update
        dom_update update_conv')
  show "\<exists>s'. Set_Add s (Some x) = Inr s' \<and>
            Set_Len s' = (if key \<in> fst ` set (errs_map s) then Set_Len s else Suc (Set_Len s)) \<and>
            map_of (errs_map s') key = Some x \<and>
            distinct (map fst (errs_map s')) \<and>
            Set_Add s' (Some x) = Inr s' \<and>
            (\<forall>y. Error y = Inr key \<longrightarrow>
               (\<exists>s''. Set_Add s' (Some y) = Inr s'' \<and> Set_Len s'' = Set_Len s' \<and>
                      map_of (errs_map s'') key = Some y))"
    using add len look dist again other by blast
next
  assume a: "distinct (map fst (errs_map s)) \<and> Set_Add_all s es = Inr t"
  then have keys: "fst ` set (errs_map t) = fst ` set (errs_map s) \<union> set (rendered es)"
    and dist: "distinct (map fst (errs_map t))"
    using Set_Add_all_keys [of s es t] by auto
  show card: "Set_Len t = card (fst ` set (errs_map s) \<union> set (rendered es))"
    using Set_Len_card [OF dist] keys by simp
  have "card (fst ` set (errs_map s) \<union> set (rendered es))
          \<le> card (fst ` set (errs_map s)) + card (set (rendered es))"
    by (rule card_Un_le)
  then show "Set_Len t \<le> Set_Len s + card (set (rendered es))"
    using card Set_Len_card [of s] a by simp
next
  show "List_Len (List_Add l (Some x)) = Suc (List_Len l)"
    by (simp add: List_Len_def List_Add_def)
  show "List_Add l None = l"
    by (simp add: List_Add_def)
  show "Set_Add s None = Inr s"
    by (simp add: Set_Add_def)
qed

theorem Set_dedup_List_growth_witness:
  "Set_Add (NewSet 20) (Some (New ''A'' [])) = Inr \<lparr>addr = 20, errs_map = [(''A'', New ''A'' [])]\<rparr> \<and>
   Set_Len \<lparr>addr = 20, errs_map = [(''A'', New ''A'' [])]\<rparr> = 1 \<and>
   Set_Add \<lparr>addr = 20, errs_map = [(''A'', New ''A'' [])]\<rparr> (Some (ErrorString 1 ''A''))
     = Inr \<lparr>addr = 20, errs_map = [(''A'', ErrorString 1 ''A'')]\<rparr> \<and>
   Set_Add_all (NewSet 20)
       [Some (New ''A'' []), Some (New ''A'' []), None, Some (Wrap (Some (New ''A'' [])) ''B'' [])]
     = Inr \<lparr>addr = 20, errs_map = [(''A'', New ''A'' []), (''B: A'', Wrap (Some (New ''A'' [])) ''B'' [])]\<rparr> \<and>
   Set_Len \<lparr>addr = 20, errs_map = [(''A'', New ''A'' []), (''B: A'', Wrap (Some (New ''A'' [])) ''B'' [])]\<rparr> = 2 \<and>
   List_Len (List_Add (List_Add (NewList 10) (Some (New ''A'' []))) (Some (New ''A'' []))) = 2"
  using Set_dedup_List_growth [where s = "NewSet 20" and x = "New ''A'' []" and key = "''A''"
      and es = "[Some (New ''A'' []), Some (New ''A'' []), None,
                 Some (Wrap (Some (New ''A'' [])) ''B'' [])]"
      and t = "\<lparr>addr = 20, errs_map = [(''A'', New ''A'' []),
                 (''B: A'', Wrap (Some (New ''A'' [])) ''B'' [])]\<rparr>"
      and l = "List_Add (NewList 10) (Some (New ''A'' []))"]
  by (simp add: Set_Add_def Set_store_def NewSet_def Set_Len_def Error_New buildErrorMessage_Nil
      Wrap_def newError_def eris_Wrap_def unwrap_nonnil_def As_errorImpl_def New_def eris_New_def
      List_Len_def List_Add_def NewList_def)

section \<open>The containers behind a mutex run the methods of the plain containers\<close>

text \<open>
  Claim C9, as amended. On a \<open>SafeList\<close> or \<open>SafeSet\<close> whose mutex is free, every method
  returns what the method of the plain container returns on the same arguments, leaves
  the container as that method leaves it, and leaves the mutex free. \<^verbatim>\<open>Has\<close> of the two
  takes one target and is the plain \<^verbatim>\<open>Has\<close> with no further target.
\<close>

theorem Safe_methods_run_plain_methods:
  "(\<not> sl_mu e \<longrightarrow>
      SafeList_Add e err = Inr (e\<lparr>sl_List := List_Add (sl_List e) err\<rparr>) \<and>
      SafeList_New e msg flds = Inr (e\<lparr>sl_List := List_New (sl_List e) msg flds\<rparr>) \<and>
      SafeList_Errorf sprintf e msg args
        = Inr (e\<lparr>sl_List := List_Errorf sprintf (sl_List e) msg args\<rparr>) \<and>
      SafeList_Wrap e err msg flds = Inr (e\<lparr>sl_List := List_Wrap (sl_List e) err msg flds\<rparr>) \<and>
      SafeList_Wrapf sprintf e err msg args
        = Inr (e\<lparr>sl_List := List_Wrapf sprintf (sl_List e) err msg args\<rparr>) \<and>
      SafeList_Has e err = map_sum id (\<lambda>b. (b, e)) (List_Has (sl_List e) err []) \<and>
      SafeList_Empty e = Inr (List_Empty (sl_List e), e) \<and>
      SafeList_NotEmpty e = Inr (List_NotEmpty (sl_List e), e) \<and>
      SafeList_Err e = Inr (List_Err (sl_List e), e) \<and>
      SafeList_Clear e = Inr (e\<lparr>sl_List := List_Clear (sl_List e)\<rparr>) \<and>
      SafeList_Len e = Inr (List_Len (sl_List e), e)) \<and>
   (\<not> ss_mu d \<longrightarrow>
      SafeSet_Add d err = map_sum id (\<lambda>s. d\<lparr>ss_set := s\<rparr>) (Set_Add (ss_set d) err) \<and>
      SafeSet_New d msg flds = map_sum id (\<lambda>s. d\<lparr>ss_set := s\<rparr>) (Set_New (ss_set d) msg flds) \<and>
      SafeSet_Errorf sprintf d msg args
        = map_sum id (\<lambda>s. d\<lparr>ss_set := s\<rparr>) (Set_Errorf sprintf (ss_set d) msg args) \<and>
      SafeSet_Wrap d err msg flds
        = map_sum id (\<lambda>s. d\<lparr>ss_set := s\<rparr>) (Set_Wrap (ss_set d) err msg flds) \<and>
      SafeSet_Wrapf sprintf d err msg args
        = map_sum id (\<lambda>s. d\<lparr>ss_set := s\<rparr>) (Set_Wrapf sprintf (ss_set d) err msg args) \<and>
      SafeSet_Has d err = map_sum id (\<lambda>b. (b, d)) (Set_Has (ss_set d) err []) \<and>
      SafeSet_Empty d = Inr (Set_Empty (ss_set d), d) \<and>
      SafeSet_Err d = Inr (Set_Err (ss_set d), d) \<and>
      SafeSet_Clear d = Inr (d\<lparr>ss_set := Set_Clear (ss_set d)\<rparr>) \<and>
      SafeSet_Len d = Inr (Set_Len (ss_set d), d))"
proof (intro conjI impI)
  assume free: "\<not> sl_mu e"
  then have lock: "Lock (sl_mu e) = Inr True" and same: "e\<lparr>sl_mu := False\<rparr> = e"
    by (simp_all add: Lock_def)
  have upd: "e\<lparr>sl_List := l, sl_mu := False\<rparr> = e\<lparr>sl_List := l\<rparr>" for l
    using free by simp
  show "SafeList_Add e err = Inr (e\<lparr>sl_List := List_Add (sl_List e) err\<rparr>)"
    by (simp add: SafeList_Add_def lock Unlock_def upd)
  show "SafeList_New e msg flds = Inr (e\<lparr>sl_List := List_New (sl_List e) msg flds\<rparr>)"
    by (simp add: SafeList_New_def lock Unlock_def upd)
  show "SafeList_Errorf sprintf e msg args
        = Inr (e\<lparr>sl_List := List_Errorf sprintf (sl_List e) msg args\<rparr>)"
    by (simp add: SafeList_Errorf_def lock Unlock_def upd)
  show "SafeList_Wrap e err msg flds = Inr (e\<lparr>sl_List := List_Wrap (sl_List e) err msg flds\<rparr>)"
    by (simp add: SafeList_Wrap_def lock Unlock_def upd)
  show "SafeList_Wrapf sprintf e err msg args
        = Inr (e\<lparr>sl_List := List_Wrapf sprintf (sl_List e) err msg args\<rparr>)"
    by (simp add: SafeList_Wrapf_def lock Unlock_def upd)
  show "SafeList_Has e err = map_sum id (\<lambda>b. (b, e)) (List_Has (sl_List e) err [])"
    by (simp add: SafeList_Has_def lock Unlock_def same split: sum.splits)
  show "SafeList_Empty e = Inr (List_Empty (sl_List e), e)"
    by (simp add: SafeList_Empty_def lock Unlock_def same)
  show "SafeList_NotEmpty e = Inr (List_NotEmpty (sl_List e), e)"
    by (simp add: SafeList_NotEmpty_def lock Unlock_def same)
  show "SafeList_Err e = Inr (List_Err (sl_List e), e)"
    by (simp add: SafeList_Err_def lock Unlock_def same)
  show "SafeList_Clear e = Inr (e\<lparr>sl_List := List_Clear (sl_List e)\<rparr>)"
    by (simp add: SafeList_Clear_def lock Unlock_def upd)
  show "SafeList_Len e = Inr (List_Len (sl_List e), e)"
    by (simp add: SafeList_Len_def lock Unlock_def same)
next
  assume free: "\<not> ss_mu d"
  then have lock: "Lock (ss_mu d) = Inr True" and same: "d\<lparr>ss_mu := False\<rparr> = d"
    by (simp_all add: Lock_def)
  have upd: "d\<lparr>ss_set := s, ss_mu := False\<rparr> = d\<lparr>ss_set := s\<rparr>" for s
    using free by simp
  have locked: "SafeSet_locked d op = map_sum id (\<lambda>s. d\<lparr>ss_set := s\<rparr>) (op (ss_set d))" for op
    by (simp add: SafeSet_locked_def lock Unlock_def upd split: sum.splits)
  show "SafeSet_Add d err = map_sum id (\<lambda>s. d\<lparr>ss_set := s\<rparr>) (Set_Add (ss_set d) err)"
    by (simp add: SafeSet_Add_def locked)
  show "SafeSet_New d msg flds = map_sum id (\<lambda>s. d\<lparr>ss_set := s\<rparr>) (Set_New (ss_set d) msg flds)"
    by (simp add: SafeSet_New_def locked)
  show "SafeSet_Errorf sprintf d msg args
        = map_sum id (\<lambda>s. d\<lparr>ss_set := s\<rparr>) (Set_Errorf sprintf (ss_set d) msg args)"
    by (simp add: SafeSet_Errorf_def locked)
  show "SafeSet_Wrap d err msg flds
        = map_sum id (\<lambda>s. d\<lparr>ss_set := s\<rparr>) (Set_Wrap (ss_set d) err msg flds)"
    by (simp add: SafeSet_Wrap_def locked)
  show "SafeSet_Wrapf sprintf d err msg args
        = map_sum id (\<lambda>s. d\<lparr>ss_set := s\<rparr>) (Set_Wrapf sprintf (ss_set d) err msg args)"
    by (simp add: SafeSet_Wrapf_def locked)
  show "SafeSet_Has d err = map_sum id (\<lambda>b. (b, d)) (Set_Has (ss_set d) err [])"
    by (simp add: SafeSet_Has_def lock Unlock_def same split: sum.splits)
  show "SafeSet_Empty d = Inr (Set_Empty (ss_set d), d)"
    by (simp add: SafeSet_Empty_def lock Unlock_def same)
  show "SafeSet_Err d = Inr (Set_Err (ss_set d), d)"
    by (simp add: SafeSet_Err_def lock Unlock_def same)
  show "SafeSet_Clear d = Inr (d\<lparr>ss_set := Set_Clear (ss_set d)\<rparr>)"
    by (simp add: SafeSet_Clear_def lock Unlock_def upd)
  show "SafeSet_Len d = Inr (Set_Len (ss_set d), d)"
    by (simp add: SafeSet_Len_def lock Unlock_def same)
qed

theorem Safe_methods_run_plain_methods_witness:
  "SafeList_Add (NewSafeList 10) (Some (ErrorString 1 ''A''))
     = Inr \<lparr>sl_List = \<lparr>addr = 10, errs = [ErrorString 1 ''A'']\<rparr>, sl_mu = False\<rparr> \<and>
   SafeList_Len \<lparr>sl_List = \<lparr>addr = 10, errs = [ErrorString 1 ''A'']\<rparr>, sl_mu = False\<rparr>
     = Inr (1, \<lparr>sl_List = \<lparr>addr = 10, errs = [ErrorString 1 ''A'']\<rparr>, sl_mu = False\<rparr>) \<and>
   SafeSet_Add (NewSafeSet 20) (Some (ErrorString 1 ''A''))
     = Inr \<lparr>ss_set = \<lparr>addr = 20, errs_map = [(''A'', ErrorString 1 ''A'')]\<rparr>, ss_mu = False\<rparr> \<and>
   SafeSet_Len \<lparr>ss_set = \<lparr>addr = 20, errs_map = [(''A'', ErrorString 1 ''A'')]\<rparr>, ss_mu = False\<rparr>
     = Inr (1, \<lparr>ss_set = \<lparr>addr = 20, errs_map = [(''A'', ErrorString 1 ''A'')]\<rparr>, ss_mu = False\<rparr>)"
  using Safe_methods_run_plain_methods [where e = "NewSafeList 10"
      and err = "Some (ErrorString 1 ''A'')" and msg = "[]" and flds = "[]"
      and sprintf = no_Sprintf and args = "[]" and d = "NewSafeSet 20"]
    Safe_methods_run_plain_methods
      [where e = "\<lparr>sl_List = \<lparr>addr = 10, errs = [ErrorString 1 ''A'']\<rparr>, sl_mu = False\<rparr>"
       and err = None and msg = "[]" and flds = "[]" and sprintf = no_Sprintf and args = "[]"
       and d = "\<lparr>ss_set = \<lparr>addr = 20, errs_map = [(''A'', ErrorString 1 ''A'')]\<rparr>,
                ss_mu = False\<rparr>"]
  by (simp add: NewSafeList_def NewSafeSet_def NewList_def NewSet_def List_Add_def List_Len_def
      Set_Add_def Set_store_def Set_Len_def)

text \<open>
  The claim as it is written gives the two a \<^verbatim>\<open>Has\<close> with further targets that behaves
  as the plain one. The plain \<^verbatim>\<open>Has\<close> finds a member through a further target; the
  \<^verbatim>\<open>Has\<close> of \<open>SafeList\<close> and \<open>SafeSet\<close>, which takes the first target only, does not.
\<close>

theorem Safe_Has_extra_targets_counterexample:
  "List_Has \<lparr>addr = 10, errs = [ErrorString 1 ''A'']\<rparr> (Some (ErrorString 2 ''B'')) [Some (ErrorString 1 ''A'')]
     = Inr True \<and>
   SafeList_Has \<lparr>sl_List = \<lparr>addr = 10, errs = [ErrorString 1 ''A'']\<rparr>, sl_mu = False\<rparr>
       (Some (ErrorString 2 ''B''))
     = Inr (False, \<lparr>sl_List = \<lparr>addr = 10, errs = [ErrorString 1 ''A'']\<rparr>, sl_mu = False\<rparr>) \<and>
   Set_Has \<lparr>addr = 20, errs_map = [(''A'', ErrorString 1 ''A'')]\<rparr> (Some (ErrorString 2 ''B''))
       [Some (ErrorString 1 ''A'')]
     = Inr True \<and>
   SafeSet_Has \<lparr>ss_set = \<lparr>addr = 20, errs_map = [(''A'', ErrorString 1 ''A'')]\<rparr>, ss_mu = False\<rparr>
       (Some (ErrorString 2 ''B''))
     = Inr (False, \<lparr>ss_set = \<lparr>addr = 20, errs_map = [(''A'', ErrorString 1 ''A'')]\<rparr>, ss_mu = False\<rparr>)"
  by (simp add: List_Has_def SafeList_Has_def Set_Has_def SafeSet_Has_def Lock_def Unlock_def
      Is_ErrorString)

section \<open>Is on a composite\<close>

lemma Is_ListError: "Is (Some (ListError a l)) t ts = Has_loop l t ts"
  by (simp add: Is.simps As_setError_def As_listError_def)

lemma Is_SetError: "Is (Some (SetError a s)) t ts = Has_loop (map snd s) t ts"
  by (simp add: Is.simps As_setError_def)

lemma unwrap_None_iff: "unwrap t = None \<longleftrightarrow> t = None"
  by (cases t) (simp_all add: unwrap_def As_errorImpl_def split: option.splits)

lemma eris_Is_nil: "eris_Is (unwrap None) (unwrap t) = Inr (t = None)"
  using unwrap_None_iff [of t]
  by (auto simp: eris_Is_def unwrap_def As_errorImpl_def split: option.splits)

lemma Is_targets_nil: "Is_targets None ts False = Inr (None \<in> set ts)"
  by (induction ts) (auto simp: eris_Is_nil)

lemma Is_nil_chain: "Is None t ts = Is_chain None t ts"
  by (simp add: Is.simps As_setError_def As_listError_def)

lemma Is_nil: "Is None t ts = Inr (t = None \<or> None \<in> set ts)"
proof (cases t)
  case None
  then show ?thesis
    using eris_Is_nil [of None] by (simp add: Is_nil_chain Is_chain_def)
next
  case (Some y)
  have res: "eris_Is (unwrap None) (unwrap (Some y)) = Inr False"
    using eris_Is_nil [of "Some y"] by simp
  show ?thesis
  proof (cases ts)
    case Nil
    then show ?thesis by (simp add: Some Is_nil_chain Is_chain_def res)
  next
    case (Cons a list)
    have "Is None t ts = Is_targets None ts False"
      by (simp add: Some Cons Is_nil_chain Is_chain_def res del: Is_targets.simps)
    then show ?thesis
      by (simp add: Is_targets_nil Some)
  qed
qed

lemma Has_targets_result:
  "\<forall>t'\<in>set ts. \<exists>b. Is (Some e) t' [] = Inr b \<Longrightarrow>
   Has_targets e ts = Inr (\<exists>t'\<in>set ts. Is (Some e) t' [] = Inr True)"
  by (induction ts) auto

lemma Has_loop_result:
  "\<forall>m\<in>set es. \<forall>t'\<in>set (t # ts). \<exists>b. Is (Some m) t' [] = Inr b \<Longrightarrow>
   Has_loop es t ts = Inr (\<exists>m\<in>set es. \<exists>t'\<in>set (t # ts). Is (Some m) t' [] = Inr True)"
proof (induction es)
  case Nil
  show ?case by simp
next
  case (Cons e es)
  then obtain b where b: "Is (Some e) t [] = Inr b"
    by auto
  have inner: "Has_targets e ts = Inr (\<exists>t'\<in>set ts. Is (Some e) t' [] = Inr True)"
    using Cons.prems by (intro Has_targets_result) simp
  have rest: "Has_loop es t ts
      = Inr (\<exists>m\<in>set es. \<exists>t'\<in>set (t # ts). Is (Some m) t' [] = Inr True)"
    using Cons by simp
  show ?case
    using b inner rest by auto
qed

lemma Has_targets_True:
  "Has_targets e ts = Inr True \<Longrightarrow> \<exists>t'\<in>set ts. Is (Some e) t' [] = Inr True"
  by (induction ts) (auto split: sum.splits if_splits)

lemma Has_loop_True:
  "Has_loop es t ts = Inr True \<Longrightarrow>
   \<exists>m\<in>set es. \<exists>t'\<in>set (t # ts). Is (Some m) t' [] = Inr True"
proof (induction es)
  case Nil
  then show ?case by simp
next
  case (Cons e es)
  then show ?case
    by (auto split: sum.splits if_splits dest: Has_targets_True)
qed

text \<open>
  Claim C4, as amended. For a \<open>Set\<close> or a \<open>List\<close> that is not empty,
  \<^verbatim>\<open>Is(s.Err(), t, ts...)\<close> is \<^verbatim>\<open>s.Has(t, ts...)\<close>; when it is true, some member matches
  one of the targets under \<^verbatim>\<open>Is\<close>; and when every comparison of a member with a target
  returns, it is true exactly when some member matches some target. Whenever the first
  argument is a composite, \<^verbatim>\<open>Is\<close> is the \<^verbatim>\<open>Has\<close> of its container. For an empty
  container \<^verbatim>\<open>Err()\<close> is nil, and \<^verbatim>\<open>Is\<close> of nil is true exactly when one of the targets
  is nil.
\<close>

theorem Is_composite_is_Has:
  "(\<not> Set_Empty s \<longrightarrow>
      Is (Set_Err s) t ts = Set_Has s t ts \<and>
      (Is (Set_Err s) t ts = Inr True \<longrightarrow>
         (\<exists>m\<in>snd ` set (errs_map s). \<exists>t'\<in>set (t # ts). Is (Some m) t' [] = Inr True)) \<and>
      ((\<forall>m\<in>snd ` set (errs_map s). \<forall>t'\<in>set (t # ts). \<exists>b. Is (Some m) t' [] = Inr b) \<longrightarrow>
         Is (Set_Err s) t ts
           = Inr (\<exists>m\<in>snd ` set (errs_map s). \<exists>t'\<in>set (t # ts). Is (Some m) t' [] = Inr True))) \<and>
   (\<not> List_Empty l \<longrightarrow>
      Is (List_Err l) t ts = List_Has l t ts \<and>
      (Is (List_Err l) t ts = Inr True \<longrightarrow>
         (\<exists>m\<in>set (errs l). \<exists>t'\<in>set (t # ts). Is (Some m) t' [] = Inr True)) \<and>
      ((\<forall>m\<in>set (errs l). \<forall>t'\<in>set (t # ts). \<exists>b. Is (Some m) t' [] = Inr b) \<longrightarrow>
         Is (List_Err l) t ts
           = Inr (\<exists>m\<in>set (errs l). \<exists>t'\<in>set (t # ts). Is (Some m) t' [] = Inr True))) \<and>
   Is (Some (SetError a m)) t ts = Set_Has \<lparr>addr = a, errs_map = m\<rparr> t ts \<and>
   Is (Some (ListError a es)) t ts = List_Has \<lparr>addr = a, errs = es\<rparr> t ts \<and>
   (Set_Empty s \<longrightarrow> Is (Set_Err s) t ts = Inr (t = None \<or> None \<in> set ts)) \<and>
   (List_Empty l \<longrightarrow> Is (List_Err l) t ts = Inr (t = None \<or> None \<in> set ts))"
proof (intro conjI impI)
  assume ne: "\<not> Set_Empty s"
  then have err: "Set_Err s = Some (SetError (addr s) (errs_map s))"
    by (simp add: Set_Err_def Set_Empty_def)
  show has: "Is (Set_Err s) t ts = Set_Has s t ts"
    by (simp add: err Is_SetError Set_Has_def)
  show "\<exists>m\<in>snd ` set (errs_map s). \<exists>t'\<in>set (t # ts). Is (Some m) t' [] = Inr True"
    if "Is (Set_Err s) t ts = Inr True"
    using that Has_loop_True [of "map snd (errs_map s)" t ts] by (simp add: has Set_Has_def)
  show "Is (Set_Err s) t ts
      = Inr (\<exists>m\<in>snd ` set (errs_map s). \<exists>t'\<in>set (t # ts). Is (Some m) t' [] = Inr True)"
    if "\<forall>m\<in>snd ` set (errs_map s). \<forall>t'\<in>set (t # ts). \<exists>b. Is (Some m) t' [] = Inr b"
    using that Has_loop_result [of "map snd (errs_map s)" t ts] by (simp add: has Set_Has_def)
next
  assume ne: "\<not> List_Empty l"
  then have err: "List_Err l = Some (ListError (addr l) (errs l))"
    by (simp add: List_Err_def List_Empty_def)
  show has: "Is (List_Err l) t ts = List_Has l t ts"
    by (simp add: err Is_ListError List_Has_def)
  show "\<exists>m\<in>set (errs l). \<exists>t'\<in>set (t # ts). Is (Some m) t' [] = Inr True"
    if "Is (List_Err l) t ts = Inr True"
    using that Has_loop_True [of "errs l" t ts] by (simp add: has List_Has_def)
  show "Is (List_Err l) t ts
      = Inr (\<exists>m\<in>set (errs l). \<exists>t'\<in>set (t # ts). Is (Some m) t' [] = Inr True)"
    if "\<forall>m\<in>set (errs l). \<forall>t'\<in>set (t # ts). \<exists>b. Is (Some m) t' [] = Inr b"
    using that Has_loop_result [of "errs l" t ts] by (simp add: has List_Has_def)
next
  show "Is (Some (SetError a m)) t ts = Set_Has \<lparr>addr = a, errs_map = m\<rparr> t ts"
    by (simp add: Is_SetError Set_Has_def)
  show "Is (Some (ListError a es)) t ts = List_Has \<lparr>addr = a, errs = es\<rparr> t ts"
    by (simp add: Is_ListError List_Has_def)
  show "Is (Set_Err s) t ts = Inr (t = None \<or> None \<in> set ts)" if "Set_Empty s"
    using that by (simp add: Set_Err_def Set_Empty_def Is_nil)
  show "Is (List_Err l) t ts = Inr (t = None \<or> None \<in> set ts)" if "List_Empty l"
    using that by (simp add: List_Err_def List_Empty_def Is_nil)
qed

theorem Is_composite_is_Has_witness:
  "Is (Set_Err \<lparr>addr = 20, errs_map = [(''A'', ErrorString 1 ''A'')]\<rparr>) (Some (ErrorString 2 ''B''))
      [Some (ErrorString 1 ''A'')] = Inr True \<and>
   Is (Set_Err \<lparr>addr = 20, errs_map = [(''A'', ErrorString 1 ''A'')]\<rparr>) (Some (ErrorString 2 ''B''))
      [Some (ErrorString 1 ''A'')]
     = Set_Has \<lparr>addr = 20, errs_map = [(''A'', ErrorString 1 ''A'')]\<rparr> (Some (ErrorString 2 ''B''))
         [Some (ErrorString 1 ''A'')] \<and>
   Is (List_Err \<lparr>addr = 10, errs = [ErrorString 1 ''A'', ErrorString 3 ''C'']\<rparr>) (Some (ErrorString 2 ''B''))
      [Some (ErrorString 1 ''A'')] = Inr True \<and>
   Is (List_Err \<lparr>addr = 10, errs = []\<rparr>) (Some (ErrorString 2 ''B'')) [None] = Inr True"
proof -
  let ?s = "\<lparr>addr = 20, errs_map = [(''A'', ErrorString 1 ''A'')]\<rparr>"
  let ?l = "\<lparr>addr = 10, errs = [ErrorString 1 ''A'', ErrorString 3 ''C'']\<rparr>"
  let ?t = "Some (ErrorString 2 ''B'')"
  let ?ts = "[Some (ErrorString 1 ''A'')]"
  note inst = Is_composite_is_Has [where s = ?s and l = ?l and t = ?t and ts = ?ts
      and m = "[]" and es = "[]"]
  have nes: "\<not> Set_Empty ?s" and nel: "\<not> List_Empty ?l"
    by (simp_all add: Set_Empty_def List_Empty_def)
  have rets: "\<forall>m\<in>snd ` set (errs_map ?s). \<forall>t'\<in>set (?t # ?ts). \<exists>b. Is (Some m) t' [] = Inr b"
    by (auto simp: Is_ErrorString)
  have retl: "\<forall>m\<in>set (errs ?l). \<forall>t'\<in>set (?t # ?ts). \<exists>b. Is (Some m) t' [] = Inr b"
    by (auto simp: Is_ErrorString)
  have has: "Is (Set_Err ?s) ?t ?ts = Set_Has ?s ?t ?ts"
    using inst nes by blast
  have "Is (Set_Err ?s) ?t ?ts
      = Inr (\<exists>m\<in>snd ` set (errs_map ?s). \<exists>t'\<in>set (?t # ?ts). Is (Some m) t' [] = Inr True)"
    using inst nes rets by blast
  then have set_true: "Is (Set_Err ?s) ?t ?ts = Inr True"
    by (simp add: Is_ErrorString)
  have "Is (List_Err ?l) ?t ?ts
      = Inr (\<exists>m\<in>set (errs ?l). \<exists>t'\<in>set (?t # ?ts). Is (Some m) t' [] = Inr True)"
    using inst nel retl by blast
  then have list_true: "Is (List_Err ?l) ?t ?ts = Inr True"
    by (simp add: Is_ErrorString)
  have "Is (List_Err \<lparr>addr = 10, errs = []\<rparr>) ?t [None] = Inr (?t = None \<or> None \<in> set [None])"
    using Is_composite_is_Has [where s = ?s and l = "\<lparr>addr = 10, errs = []\<rparr>" and t = ?t
        and ts = "[None]" and m = "[]" and es = "[]"]
    by (simp add: List_Empty_def)
  then have empty_true: "Is (List_Err \<lparr>addr = 10, errs = []\<rparr>) ?t [None] = Inr True"
    by simp
  show ?thesis
    using set_true has list_true empty_true by simp
qed

text \<open>
  The claim as it is written is for every \<open>Set\<close> and \<open>List\<close>. The composite of an empty
  container is nil, and \<^verbatim>\<open>Is(nil, nil)\<close> is true, with no member to match.
\<close>

theorem Is_empty_container_nil_target_counterexample:
  "Is (Set_Err (NewSet 20)) None [] = Inr True \<and>
   \<not> (\<exists>m\<in>snd ` set (errs_map (NewSet 20)). \<exists>t'\<in>set [None]. Is (Some m) t' [] = Inr True) \<and>
   Is (List_Err (NewList 10)) None [] = Inr True \<and>
   \<not> (\<exists>m\<in>set (errs (NewList 10)). \<exists>t'\<in>set [None]. Is (Some m) t' [] = Inr True)"
  by (simp add: Set_Err_def List_Err_def NewSet_def NewList_def Is_nil)

section \<open>JoinErrors wraps none of its arguments\<close>











end
